theory Spec2Isabelle
  imports Complex_Main
begin

section \<open>Python values used by the service\<close>

text \<open>
  The service is one Python module, \<^verbatim>\<open>src/app.py\<close>. Exceptions are values: every
  operation that can raise returns \<open>error + 'a\<close>, with \<open>Inl\<close> for the exception.
  \<open>AcquisitionFailure\<close> and \<open>ExecutionFailure\<close> stand for whatever the two external
  collaborators (\<^verbatim>\<open>preprocessor.from_url\<close>, \<^verbatim>\<open>session.run\<close>) raise.
\<close>

datatype error = ValueError | KeyError | IndexError | TypeError
  | AcquisitionFailure | ExecutionFailure

subsection \<open>Dictionaries\<close>

text \<open>
  A Python \<^verbatim>\<open>dict\<close> keeps its keys in insertion order, and \<^verbatim>\<open>max\<close> iterates over it in
  that order, so a dictionary is an association list. Storing under a key that is already
  present replaces the value and keeps the key's position; a new key goes to the end.
\<close>

type_synonym ('k, 'v) dict = "('k \<times> 'v) list"

fun dict_setitem :: "('k, 'v) dict \<Rightarrow> 'k \<Rightarrow> 'v \<Rightarrow> ('k, 'v) dict" where
  "dict_setitem [] k v = [(k, v)]"
| "dict_setitem ((k', v') # d) k v =
     (if k' = k then (k', v) # d else (k', v') # dict_setitem d k v)"

text \<open>\<^verbatim>\<open>dict(pairs)\<close>: the pairs are stored one after the other, starting from the empty dictionary.\<close>

fun dict_update :: "('k, 'v) dict \<Rightarrow> ('k \<times> 'v) list \<Rightarrow> ('k, 'v) dict" where
  "dict_update d [] = d"
| "dict_update d ((k, v) # ps) = dict_update (dict_setitem d k v) ps"

definition dict :: "('k \<times> 'v) list \<Rightarrow> ('k, 'v) dict" where
  "dict ps = dict_update [] ps"

definition dict_keys :: "('k, 'v) dict \<Rightarrow> 'k list" where
  "dict_keys d = map fst d"

definition dict_values :: "('k, 'v) dict \<Rightarrow> 'v list" where
  "dict_values d = map snd d"

text \<open>\<^verbatim>\<open>d.get(k)\<close> is \<^verbatim>\<open>None\<close> for a missing key; \<^verbatim>\<open>d[k]\<close> raises \<^verbatim>\<open>KeyError\<close>.\<close>

definition dict_get :: "('k, 'v) dict \<Rightarrow> 'k \<Rightarrow> 'v option" where
  "dict_get d k = map_of d k"

definition dict_getitem :: "('k, 'v) dict \<Rightarrow> 'k \<Rightarrow> error + 'v" where
  "dict_getitem d k = (case map_of d k of None \<Rightarrow> Inl KeyError | Some v \<Rightarrow> Inr v)"

subsection \<open>\<^verbatim>\<open>max\<close> with a key function\<close>

text \<open>
  \<^verbatim>\<open>max(iterable, key=f)\<close> raises \<^verbatim>\<open>ValueError\<close> on an empty iterable. Otherwise it starts
  with the first item and replaces the current item by a later one only when the later
  key is strictly greater (\<^verbatim>\<open>>\<close>). The key here is \<^verbatim>\<open>dict.get\<close>, whose value may be
  \<^verbatim>\<open>None\<close>; comparing \<^verbatim>\<open>None\<close> with \<^verbatim>\<open>>\<close> raises \<^verbatim>\<open>TypeError\<close>.

  Scores are Python floats. The assembly never computes with them, it only compares and
  copies them. A float is NaN or a number; the numbers (the infinities among them) are
  linearly ordered, and they are the values of a type \<open>'a\<close>. Every comparison with NaN is
  false. (The two zeros compare equal and are one number here.) \<open>float_gt\<close> is \<^verbatim>\<open>>\<close>
  and \<open>float_ge\<close> is \<^verbatim>\<open>>=\<close>.
\<close>

datatype 'a pyfloat = Num 'a | NaN

definition float_gt :: "('a::linorder) pyfloat \<Rightarrow> 'a pyfloat \<Rightarrow> bool" where
  "float_gt x y = (case (x, y) of (Num a, Num b) \<Rightarrow> b < a | _ \<Rightarrow> False)"

definition float_ge :: "('a::linorder) pyfloat \<Rightarrow> 'a pyfloat \<Rightarrow> bool" where
  "float_ge x y = (case (x, y) of (Num a, Num b) \<Rightarrow> b \<le> a | _ \<Rightarrow> False)"

definition py_gt :: "('a::linorder) pyfloat option \<Rightarrow> 'a pyfloat option \<Rightarrow> error + bool" where
  "py_gt a b =
     (case (a, b) of (Some x, Some y) \<Rightarrow> Inr (float_gt x y) | _ \<Rightarrow> Inl TypeError)"

fun max_from ::
  "('x \<Rightarrow> ('a::linorder) pyfloat option) \<Rightarrow> 'x \<Rightarrow> 'x list \<Rightarrow> error + 'x" where
  "max_from key best [] = Inr best"
| "max_from key best (x # xs) =
     (case py_gt (key x) (key best) of
        Inl e \<Rightarrow> Inl e
      | Inr b \<Rightarrow> max_from key (if b then x else best) xs)"

definition py_max ::
  "'x list \<Rightarrow> ('x \<Rightarrow> ('a::linorder) pyfloat option) \<Rightarrow> error + 'x" where
  "py_max xs key = (case xs of [] \<Rightarrow> Inl ValueError | x # rest \<Rightarrow> max_from key x rest)"

section \<open>Prediction assembly\<close>

definition classes :: "string list" where
  "classes = [''dress'', ''hat'', ''longsleeve'', ''outwear'', ''pants'',
              ''shirt'', ''shoes'', ''shorts'', ''skirt'', ''t-shirt'']"

text \<open>
  The part of \<^verbatim>\<open>predict\<close> after the model has run (from \<^verbatim>\<open>float_predictions\<close> on):
  \<^verbatim>\<open>
    predictions_dict = dict(zip(classes, float_predictions))
    top_class = max(predictions_dict, key=predictions_dict.get)
    top_probability = predictions_dict[top_class]
    return predictions_dict, top_class, top_probability
  \<close>
  Python's \<^verbatim>\<open>zip\<close> stops at the end of the shorter sequence, as \<^const>\<open>zip\<close> does.
\<close>

type_synonym 'a prediction = "(string, 'a pyfloat) dict \<times> string \<times> 'a pyfloat"

definition predict_assembly :: "('a::linorder) pyfloat list \<Rightarrow> error + 'a prediction" where
  "predict_assembly float_predictions =
     (let predictions_dict = dict (zip classes float_predictions) in
      case py_max (dict_keys predictions_dict) (dict_get predictions_dict) of
        Inl e \<Rightarrow> Inl e
      | Inr top_cls \<Rightarrow>
          (case dict_getitem predictions_dict top_cls of
             Inl e \<Rightarrow> Inl e
           | Inr top_probability \<Rightarrow> Inr (predictions_dict, top_cls, top_probability)))"

subsection \<open>The assembly and the module's global names\<close>

text \<open>
  \<^verbatim>\<open>classes\<close> is a global name of the module, bound at import to a list, which is a
  mutable object; \<^verbatim>\<open>model_name\<close> is another global that holds data. A function reads a
  global when it runs, and it could rebind or mutate it. Here are the same lines of
  \<^verbatim>\<open>predict\<close> with the globals explicit: the function takes the values the globals hold
  and returns the values they hold afterwards. \<^const>\<open>predict_assembly\<close> is the case in
  which \<^verbatim>\<open>classes\<close> holds the list it was bound to at import.
\<close>

record globals =
  model_name :: string
  classes_list :: "string list"

definition predict_assembly_in ::
  "globals \<Rightarrow> ('a::linorder) pyfloat list \<Rightarrow> globals \<times> (error + 'a prediction)" where
  "predict_assembly_in g float_predictions =
     (let predictions_dict = dict (zip (classes_list g) float_predictions) in
      case py_max (dict_keys predictions_dict) (dict_get predictions_dict) of
        Inl e \<Rightarrow> (g, Inl e)
      | Inr top_cls \<Rightarrow>
          (case dict_getitem predictions_dict top_cls of
             Inl e \<Rightarrow> (g, Inl e)
           | Inr top_probability \<Rightarrow> (g, Inr (predictions_dict, top_cls, top_probability))))"

section \<open>The pipeline around the assembly\<close>

text \<open>
  \<^verbatim>\<open>predict\<close> calls two external collaborators before it assembles the result:
  \<^verbatim>\<open>preprocessor.from_url(url)\<close> (fetch, decode, resize and preprocess the image) and
  \<^verbatim>\<open>session.run\<close> (the model). Neither is code of the service, so both are parameters;
  either may raise. \<^verbatim>\<open>session.run\<close> returns one array per requested output, and the
  service reads row 0 of output 0. The request model declares \<^verbatim>\<open>url: HttpUrl\<close>; the
  validator is a parameter too: it returns the normalised URL, or nothing for a string that
  is not a valid URL.
\<close>

record ('x, 'a) collaborators =
  from_url :: "string \<Rightarrow> error + 'x"
  session_run :: "'x \<Rightarrow> error + 'a pyfloat list list list"
  HttpUrl :: "string \<Rightarrow> string option"

text \<open>The calls made to the collaborators are recorded, in order.\<close>

datatype event = FromUrl string | SessionRun

definition getitem0 :: "'b list \<Rightarrow> error + 'b" where
  "getitem0 xs = (case xs of [] \<Rightarrow> Inl IndexError | x # _ \<Rightarrow> Inr x)"

definition predict ::
  "('x, 'a::linorder) collaborators \<Rightarrow> string \<Rightarrow> event list \<times> (error + 'a prediction)" where
  "predict c url =
     (case from_url c url of
        Inl e \<Rightarrow> ([FromUrl url], Inl e)
      | Inr X \<Rightarrow>
          (case session_run c X of
             Inl e \<Rightarrow> ([FromUrl url, SessionRun], Inl e)
           | Inr result \<Rightarrow>
               ([FromUrl url, SessionRun],
                case getitem0 result of
                  Inl e \<Rightarrow> Inl e
                | Inr output \<Rightarrow>
                    (case getitem0 output of
                       Inl e \<Rightarrow> Inl e
                     | Inr float_predictions \<Rightarrow> predict_assembly float_predictions))))"

section \<open>The service boundary\<close>

record PredictRequest =
  url :: string

record 'a PredictResponse =
  predictions :: "(string, 'a pyfloat) dict"
  top_class' :: string
  top_probability :: "'a pyfloat"

text \<open>
  The application declares two routes. The framework builds the \<^verbatim>\<open>PredictRequest\<close> from
  the request body before it calls the endpoint, and answers 422 when that fails; an
  exception that escapes an endpoint becomes a 500 response; a returned value is sent with
  status 200. The body of a \<^verbatim>\<open>POST /predict\<close> is reduced to its \<^verbatim>\<open>url\<close> field, absent
  when the body has none.
\<close>

datatype request = GetHealth | PostPredict "string option"

datatype 'a body =
    HealthBody "(string, string) dict"
  | PredictBody "'a PredictResponse"
  | ValidationError
  | InternalServerError

datatype 'a response = Response nat "'a body"

definition validate_PredictRequest ::
  "('x, 'a) collaborators \<Rightarrow> string option \<Rightarrow> PredictRequest option" where
  "validate_PredictRequest c field =
     (case field of
        None \<Rightarrow> None
      | Some u \<Rightarrow> (case HttpUrl c u of None \<Rightarrow> None | Some v \<Rightarrow> Some \<lparr>url = v\<rparr>))"

definition predict_endpoint ::
  "('x, 'a::linorder) collaborators \<Rightarrow> PredictRequest \<Rightarrow> event list \<times> (error + 'a PredictResponse)" where
  "predict_endpoint c request =
     (case predict c (url request) of
        (trace, Inl e) \<Rightarrow> (trace, Inl e)
      | (trace, Inr (preds, top_cls, top_prob)) \<Rightarrow>
          (trace, Inr \<lparr>predictions = preds, top_class' = top_cls, top_probability = top_prob\<rparr>))"

definition health :: "(string, string) dict" where
  "health = dict [(''status'', ''healthy'')]"

definition app ::
  "('x, 'a::linorder) collaborators \<Rightarrow> request \<Rightarrow> event list \<times> 'a response" where
  "app c req =
     (case req of
        GetHealth \<Rightarrow> ([], Response 200 (HealthBody health))
      | PostPredict field \<Rightarrow>
          (case validate_PredictRequest c field of
             None \<Rightarrow> ([], Response 422 ValidationError)
           | Some request \<Rightarrow>
               (case predict_endpoint c request of
                  (trace, Inl e) \<Rightarrow> (trace, Response 500 InternalServerError)
                | (trace, Inr r) \<Rightarrow> (trace, Response 200 (PredictBody r)))))"

section \<open>NumPy arrays\<close>

text \<open>
  An \<^verbatim>\<open>ndarray\<close> is an object that points to a data buffer and says how to read it: its
  shape and its strides (counted in elements). Two arrays may share a buffer: the result of
  \<^verbatim>\<open>transpose\<close> is a view of its argument. Buffers live in a heap, a list of buffers
  addressed by position; allocating appends a buffer. The arrays of the service are
  created by allocation and transposition only, so every read below is inside its buffer.

  The type \<open>'a\<close> stands for NumPy's scalar values. The operations the transform uses
  are parameters: division and subtraction, each with the element type of its result, the
  cast to an element type, and the value of a Python float literal. Their IEEE instance
  follows the transform. An array records its element type.
\<close>

type_synonym 'a heap = "'a list list"

datatype dtype = Float32 | Float64

record ndarray =
  data :: nat
  dtype :: dtype
  shape :: "nat list"
  strides :: "nat list"

record 'a arith =
  true_divide :: "dtype \<Rightarrow> 'a \<Rightarrow> 'a \<Rightarrow> 'a"
  subtract :: "dtype \<Rightarrow> 'a \<Rightarrow> 'a \<Rightarrow> 'a"
  astype :: "dtype \<Rightarrow> 'a \<Rightarrow> 'a"
  python_float :: "real \<Rightarrow> 'a"

text \<open>Row-major strides of a freshly allocated array.\<close>

fun c_strides :: "nat list \<Rightarrow> nat list" where
  "c_strides [] = []"
| "c_strides (d # ds) = prod_list ds # c_strides ds"

definition alloc :: "'a heap \<Rightarrow> dtype \<Rightarrow> nat list \<Rightarrow> 'a list \<Rightarrow> 'a heap \<times> ndarray" where
  "alloc h dt shp buf =
     (h @ [buf], \<lparr>data = length h, dtype = dt, shape = shp, strides = c_strides shp\<rparr>)"

definition offset :: "nat list \<Rightarrow> nat list \<Rightarrow> nat" where
  "offset strd idx = sum_list (map (\<lambda>(i, s). i * s) (zip idx strd))"

definition getitem :: "'a heap \<Rightarrow> ndarray \<Rightarrow> nat list \<Rightarrow> 'a" where
  "getitem h a idx = (h ! data a) ! offset (strides a) idx"

text \<open>All the indices of a shape, in row-major order.\<close>

fun indices :: "nat list \<Rightarrow> nat list list" where
  "indices [] = [[]]"
| "indices (d # ds) = concat (map (\<lambda>i. map ((#) i) (indices ds)) [0..<d])"

definition tolist :: "'a heap \<Rightarrow> ndarray \<Rightarrow> 'a list" where
  "tolist h a = map (getitem h a) (indices (shape a))"

text \<open>
  \<^verbatim>\<open>np.array(xs)\<close> of a flat list of Python floats is a \<^verbatim>\<open>float64\<close> array;
  \<^verbatim>\<open>reshape\<close> of such a contiguous array is a view with the new shape.
\<close>

definition np_array :: "'a heap \<Rightarrow> 'a list \<Rightarrow> 'a heap \<times> ndarray" where
  "np_array h xs = alloc h Float64 [length xs] xs"

definition reshape :: "ndarray \<Rightarrow> nat list \<Rightarrow> error + ndarray" where
  "reshape a shp =
     (if prod_list shp = prod_list (shape a)
      then Inr (a\<lparr>shape := shp, strides := c_strides shp\<rparr>)
      else Inl ValueError)"

text \<open>
  \<^verbatim>\<open>a.transpose(axes)\<close> permutes shape and strides and keeps the buffer; it raises
  \<^verbatim>\<open>ValueError\<close> unless the axes are a permutation of the array's dimensions.
\<close>

definition transpose_axes :: "ndarray \<Rightarrow> nat list \<Rightarrow> error + ndarray" where
  "transpose_axes a axes =
     (if sort axes = [0..<length (shape a)]
      then Inr (a\<lparr>shape := map ((!) (shape a)) axes, strides := map ((!) (strides a)) axes\<rparr>)
      else Inl ValueError)"

text \<open>
  An elementwise operation with one array operand allocates its result, of the element
  type given. (A floating-point array divided by a Python float keeps its element type,
  and the Python float is converted to that type first; \<^verbatim>\<open>astype\<close> sets the type.)
\<close>

definition elementwise ::
  "('a \<Rightarrow> 'a) \<Rightarrow> dtype \<Rightarrow> 'a heap \<Rightarrow> ndarray \<Rightarrow> 'a heap \<times> ndarray" where
  "elementwise f dt h a =
     alloc h dt (shape a) (map (\<lambda>idx. f (getitem h a idx)) (indices (shape a)))"

text \<open>
  Broadcasting: shapes are aligned at their last dimension, a missing or 1-long dimension
  is stretched, and any other mismatch raises \<^verbatim>\<open>ValueError\<close>. A stretched dimension is
  always read at position 0. The result has the wider of the two element types, and the
  operation is the one of that type.
\<close>

definition result_type :: "dtype \<Rightarrow> dtype \<Rightarrow> dtype" where
  "result_type s t = (if s = Float32 \<and> t = Float32 then Float32 else Float64)"

definition pad_shape :: "nat \<Rightarrow> nat list \<Rightarrow> nat list" where
  "pad_shape n shp = replicate (n - length shp) 1 @ shp"

fun broadcast_dims :: "nat list \<Rightarrow> nat list \<Rightarrow> nat list option" where
  "broadcast_dims [] [] = Some []"
| "broadcast_dims (m # ms) (n # ns) =
     (case broadcast_dims ms ns of
        None \<Rightarrow> None
      | Some ds \<Rightarrow>
          (if m = n then Some (m # ds)
           else if m = 1 then Some (n # ds)
           else if n = 1 then Some (m # ds)
           else None))"
| "broadcast_dims _ _ = None"

definition broadcast_shapes :: "nat list \<Rightarrow> nat list \<Rightarrow> nat list option" where
  "broadcast_shapes s t =
     (let n = max (length s) (length t) in broadcast_dims (pad_shape n s) (pad_shape n t))"

definition broadcast_index :: "nat list \<Rightarrow> nat list \<Rightarrow> nat list" where
  "broadcast_index shp idx =
     map (\<lambda>(d, i). if d = 1 then 0 else i) (zip shp (drop (length idx - length shp) idx))"

definition elementwise2 ::
  "(dtype \<Rightarrow> 'a \<Rightarrow> 'a \<Rightarrow> 'a) \<Rightarrow> 'a heap \<Rightarrow> ndarray \<Rightarrow> ndarray \<Rightarrow>
   'a heap \<times> (error + ndarray)" where
  "elementwise2 f h a b =
     (case broadcast_shapes (shape a) (shape b) of
        None \<Rightarrow> (h, Inl ValueError)
      | Some shp \<Rightarrow>
          (case alloc h (result_type (dtype a) (dtype b)) shp
                  (map (\<lambda>idx. f (result_type (dtype a) (dtype b))
                                (getitem h a (broadcast_index (shape a) idx))
                                (getitem h b (broadcast_index (shape b) idx)))
                       (indices shp))
           of (h', r) \<Rightarrow> (h', Inr r)))"

section \<open>The preprocessing transform\<close>

text \<open>
  \<^verbatim>\<open>
    def preprocess_pytorch_style(X):
        X = X / 255.0
        mean = np.array([0.485, 0.456, 0.406]).reshape(1, 3, 1, 1)
        std = np.array([0.229, 0.224, 0.225]).reshape(1, 3, 1, 1)
        X = X.transpose(0, 3, 1, 2)
        X = (X - mean) / std
        return X.astype(np.float32)
  \<close>
  The function takes the heap and the array object bound to \<^verbatim>\<open>X\<close>, and returns the heap
  it leaves and the array it returns or the exception it raises. Each assignment to
  \<^verbatim>\<open>X\<close> rebinds the local name to another object.
\<close>

definition preprocess_pytorch_style ::
  "'a arith \<Rightarrow> 'a heap \<Rightarrow> ndarray \<Rightarrow> 'a heap \<times> (error + ndarray)" where
  "preprocess_pytorch_style ar h X =
     (case elementwise
             (\<lambda>v. true_divide ar (dtype X) v (astype ar (dtype X) (python_float ar 255.0)))
             (dtype X) h X of (h1, X1) \<Rightarrow>
      case np_array h1 (map (python_float ar) [0.485, 0.456, 0.406]) of (h2, mean0) \<Rightarrow>
      case reshape mean0 [1, 3, 1, 1] of Inl e \<Rightarrow> (h2, Inl e) | Inr mean \<Rightarrow>
      case np_array h2 (map (python_float ar) [0.229, 0.224, 0.225]) of (h3, std0) \<Rightarrow>
      case reshape std0 [1, 3, 1, 1] of Inl e \<Rightarrow> (h3, Inl e) | Inr std \<Rightarrow>
      case transpose_axes X1 [0, 3, 1, 2] of Inl e \<Rightarrow> (h3, Inl e) | Inr X2 \<Rightarrow>
      case elementwise2 (subtract ar) h3 X2 mean of (h4, Inl e) \<Rightarrow> (h4, Inl e) | (h4, Inr X3) \<Rightarrow>
      case elementwise2 (true_divide ar) h4 X3 std of (h5, Inl e) \<Rightarrow> (h5, Inl e) | (h5, Inr X4) \<Rightarrow>
      case elementwise (astype ar Float32) Float32 h5 X4 of (h6, X5) \<Rightarrow> (h6, Inr X5))"


section \<open>IEEE arithmetic\<close>

text \<open>
  NumPy's \<^verbatim>\<open>float32\<close> and \<^verbatim>\<open>float64\<close> are the IEEE 754 binary formats with 24 and 53
  significant bits. A finite float is a real number; an operation returns the exact result
  rounded to the nearest float of the result type, ties to the even significand. The
  exponent of a number is found by search from the least exponent of the format, so that
  numbers below the normal range are rounded on the subnormal grid. Overflow to infinity,
  division by zero and NaN are not modelled: the transform divides by 255 and by the three
  deviations, and on pixel values between 0 and 255 all its results are below 3 in
  magnitude.
\<close>

definition precision :: "dtype \<Rightarrow> int" where
  "precision dt = (case dt of Float32 \<Rightarrow> 24 | Float64 \<Rightarrow> 53)"

definition emin :: "dtype \<Rightarrow> int" where
  "emin dt = (case dt of Float32 \<Rightarrow> - 126 | Float64 \<Rightarrow> - 1022)"

definition emax :: "dtype \<Rightarrow> int" where
  "emax dt = (case dt of Float32 \<Rightarrow> 127 | Float64 \<Rightarrow> 1023)"

fun exponent_from :: "nat \<Rightarrow> int \<Rightarrow> real \<Rightarrow> int" where
  "exponent_from 0 e x = e"
| "exponent_from (Suc n) e x =
     (if 2 powi (e + 1) \<le> x then exponent_from n (e + 1) x else e)"

definition exponent :: "dtype \<Rightarrow> real \<Rightarrow> int" where
  "exponent dt x = exponent_from (nat (emax dt - emin dt)) (emin dt) \<bar>x\<bar>"

definition round_half_even :: "real \<Rightarrow> int" where
  "round_half_even m =
     (let f = \<lfloor>m\<rfloor>; d = m - of_int f in
      if d < 1 / 2 then f else if 1 / 2 < d then f + 1 else if even f then f else f + 1)"

definition ieee_round :: "dtype \<Rightarrow> real \<Rightarrow> real" where
  "ieee_round dt x =
     (let ulp = 2 powi (exponent dt x - precision dt + 1) in
      of_int (round_half_even (x / ulp)) * ulp)"

definition ieee_arith :: "real arith" where
  "ieee_arith =
     \<lparr>true_divide = (\<lambda>dt x y. ieee_round dt (x / y)),
      subtract = (\<lambda>dt x y. ieee_round dt (x - y)),
      astype = ieee_round,
      python_float = ieee_round Float64\<rparr>"

section \<open>Small inputs for running the model\<close>

text \<open>
  A 2 by 2 image with 3 channels in a heap of one buffer, and collaborators that answer
  every URL with the same scores and accept a URL when it starts with \<^verbatim>\<open>http://\<close>.
  The pixel values are floats of both formats.
\<close>

definition example_heap :: "real heap" where
  "example_heap = [[255, 0, 0, 254, 1, 0, 253, 2, 0, 252, 3, 0]]"

definition example_image :: ndarray where
  "example_image = \<lparr>data = 0, dtype = Float32, shape = [1, 2, 2, 3], strides = [12, 6, 3, 1]\<rparr>"

text \<open>
  An image of 224 by 224 pixels that are all \<open>(255, 0, 0)\<close>, as \<^verbatim>\<open>np.broadcast_to\<close>
  makes it: every pixel reads the same three elements.
\<close>

definition example_planes_heap :: "real heap" where
  "example_planes_heap = [[255, 0, 0]]"

definition example_planes :: ndarray where
  "example_planes =
     \<lparr>data = 0, dtype = Float32, shape = [1, 224, 224, 3], strides = [0, 0, 0, 1]\<rparr>"

definition example_scores :: "real pyfloat list" where
  "example_scores =
     [Num 0.1, Num 0.05, Num 0.05, Num 0.05, Num 0.05, Num 0.1, Num 0.1, Num 0.1, Num 0.3,
      Num 0.1]"

text \<open>A service whose model returns the given scores for every image.\<close>

definition service_returning :: "real pyfloat list \<Rightarrow> (nat, real) collaborators" where
  "service_returning scores =
     \<lparr>from_url = (\<lambda>u. Inr 0),
      session_run = (\<lambda>X. Inr [[scores]]),
      HttpUrl = (\<lambda>u. if take 7 u = ''http://'' then Some u else None)\<rparr>"

definition example_service :: "(nat, real) collaborators" where
  "example_service = service_returning example_scores"



section \<open>Properties of the prediction assembly\<close>

subsection \<open>The dictionary built from distinct keys\<close>

lemma dict_setitem_fresh:
  "k \<notin> fst ` set d \<Longrightarrow> dict_setitem d k v = d @ [(k, v)]"
  by (induction d) auto

lemma dict_update_distinct:
  "distinct (map fst d @ map fst ps) \<Longrightarrow> dict_update d ps = d @ ps"
proof (induction ps arbitrary: d)
  case Nil
  then show ?case by simp
next
  case (Cons p ps)
  obtain k v where p: "p = (k, v)" by (cases p)
  from Cons.prems p have fresh: "k \<notin> fst ` set d" by auto
  from Cons.prems p have "distinct (map fst (d @ [(k, v)]) @ map fst ps)" by auto
  then have "dict_update (d @ [(k, v)]) ps = (d @ [(k, v)]) @ ps" by (rule Cons.IH)
  with fresh p show ?case by (simp add: dict_setitem_fresh)
qed

lemma dict_zip_distinct: "distinct ks \<Longrightarrow> dict (zip ks vs) = zip ks vs"
proof -
  assume "distinct ks"
  then have "distinct (map fst (zip ks vs))" by (simp add: map_fst_zip_take)
  then show ?thesis by (simp add: dict_def dict_update_distinct)
qed

lemma distinct_classes: "distinct classes"
  by (simp add: classes_def)

lemma length_classes: "length classes = 10"
  by (simp add: classes_def)

subsection \<open>\<^verbatim>\<open>max\<close> returns the first item with the greatest key\<close>

lemma max_from_first:
  assumes "\<And>x. x \<in> set (b # xs) \<Longrightarrow> key x = Some (Num (f x))"
  shows "\<exists>r. max_from key b xs = Inr r \<and>
           ((r = b \<and> (\<forall>x\<in>set xs. f x \<le> f b)) \<or>
            (\<exists>i<length xs. r = xs ! i \<and> f b < f (xs ! i) \<and>
               (\<forall>j<i. f (xs ! j) < f (xs ! i)) \<and> (\<forall>x\<in>set xs. f x \<le> f (xs ! i))))"
  using assms
proof (induction xs arbitrary: b)
  case Nil
  then show ?case by simp
next
  case (Cons x xs)
  have kx: "key x = Some (Num (f x))" and kb: "key b = Some (Num (f b))"
    using Cons.prems by simp_all
  show ?case
  proof (cases "f x > f b")
    case True
    have step: "max_from key b (x # xs) = max_from key x xs"
      using True kx kb by (simp add: py_gt_def float_gt_def)
    have "\<And>y. y \<in> set (x # xs) \<Longrightarrow> key y = Some (Num (f y))"
      using Cons.prems by simp
    from Cons.IH[of x, OF this] obtain r where r: "max_from key x xs = Inr r"
      and alt: "(r = x \<and> (\<forall>y\<in>set xs. f y \<le> f x)) \<or>
            (\<exists>i<length xs. r = xs ! i \<and> f x < f (xs ! i) \<and>
               (\<forall>j<i. f (xs ! j) < f (xs ! i)) \<and> (\<forall>y\<in>set xs. f y \<le> f (xs ! i)))"
      by blast
    from alt show ?thesis
    proof
      assume a: "r = x \<and> (\<forall>y\<in>set xs. f y \<le> f x)"
      have "0 < length (x # xs) \<and> r = (x # xs) ! 0 \<and> f b < f ((x # xs) ! 0) \<and>
            (\<forall>j<0. f ((x # xs) ! j) < f ((x # xs) ! 0)) \<and>
            (\<forall>y\<in>set (x # xs). f y \<le> f ((x # xs) ! 0))"
        using a True by simp
      then have "\<exists>i<length (x # xs). r = (x # xs) ! i \<and> f b < f ((x # xs) ! i) \<and>
            (\<forall>j<i. f ((x # xs) ! j) < f ((x # xs) ! i)) \<and>
            (\<forall>y\<in>set (x # xs). f y \<le> f ((x # xs) ! i))"
        by (rule exI)
      moreover have "max_from key b (x # xs) = Inr r" using r step by simp
      ultimately show ?thesis by simp
    next
      assume "\<exists>i<length xs. r = xs ! i \<and> f x < f (xs ! i) \<and>
               (\<forall>j<i. f (xs ! j) < f (xs ! i)) \<and> (\<forall>y\<in>set xs. f y \<le> f (xs ! i))"
      then obtain i where i: "i < length xs" "r = xs ! i" "f x < f (xs ! i)"
        "\<forall>j<i. f (xs ! j) < f (xs ! i)" "\<forall>y\<in>set xs. f y \<le> f (xs ! i)"
        by blast
      have "Suc i < length (x # xs) \<and> r = (x # xs) ! Suc i \<and> f b < f ((x # xs) ! Suc i) \<and>
            (\<forall>j<Suc i. f ((x # xs) ! j) < f ((x # xs) ! Suc i)) \<and>
            (\<forall>y\<in>set (x # xs). f y \<le> f ((x # xs) ! Suc i))"
        using i True by (auto simp: less_Suc_eq_0_disj)
      then have "\<exists>i<length (x # xs). r = (x # xs) ! i \<and> f b < f ((x # xs) ! i) \<and>
            (\<forall>j<i. f ((x # xs) ! j) < f ((x # xs) ! i)) \<and>
            (\<forall>y\<in>set (x # xs). f y \<le> f ((x # xs) ! i))"
        by (rule exI)
      moreover have "max_from key b (x # xs) = Inr r" using r step by simp
      ultimately show ?thesis by simp
    qed
  next
    case False
    have step: "max_from key b (x # xs) = max_from key b xs"
      using False kx kb by (simp add: py_gt_def float_gt_def)
    have "\<And>y. y \<in> set (b # xs) \<Longrightarrow> key y = Some (Num (f y))"
      using Cons.prems by auto
    from Cons.IH[of b, OF this] obtain r where r: "max_from key b xs = Inr r"
      and alt: "(r = b \<and> (\<forall>y\<in>set xs. f y \<le> f b)) \<or>
            (\<exists>i<length xs. r = xs ! i \<and> f b < f (xs ! i) \<and>
               (\<forall>j<i. f (xs ! j) < f (xs ! i)) \<and> (\<forall>y\<in>set xs. f y \<le> f (xs ! i)))"
      by blast
    from alt show ?thesis
    proof
      assume a: "r = b \<and> (\<forall>y\<in>set xs. f y \<le> f b)"
      then have "r = b \<and> (\<forall>y\<in>set (x # xs). f y \<le> f b)" using False by auto
      moreover have "max_from key b (x # xs) = Inr r" using r step by simp
      ultimately show ?thesis by simp
    next
      assume "\<exists>i<length xs. r = xs ! i \<and> f b < f (xs ! i) \<and>
               (\<forall>j<i. f (xs ! j) < f (xs ! i)) \<and> (\<forall>y\<in>set xs. f y \<le> f (xs ! i))"
      then obtain i where i: "i < length xs" "r = xs ! i" "f b < f (xs ! i)"
        "\<forall>j<i. f (xs ! j) < f (xs ! i)" "\<forall>y\<in>set xs. f y \<le> f (xs ! i)"
        by blast
      have "Suc i < length (x # xs) \<and> r = (x # xs) ! Suc i \<and> f b < f ((x # xs) ! Suc i) \<and>
            (\<forall>j<Suc i. f ((x # xs) ! j) < f ((x # xs) ! Suc i)) \<and>
            (\<forall>y\<in>set (x # xs). f y \<le> f ((x # xs) ! Suc i))"
        using i False by (auto simp: less_Suc_eq_0_disj)
      then have "\<exists>i<length (x # xs). r = (x # xs) ! i \<and> f b < f ((x # xs) ! i) \<and>
            (\<forall>j<i. f ((x # xs) ! j) < f ((x # xs) ! i)) \<and>
            (\<forall>y\<in>set (x # xs). f y \<le> f ((x # xs) ! i))"
        by (rule exI)
      moreover have "max_from key b (x # xs) = Inr r" using r step by simp
      ultimately show ?thesis by simp
    qed
  qed
qed

lemma py_max_first:
  assumes ne: "ks \<noteq> []" and key: "\<And>x. x \<in> set ks \<Longrightarrow> key x = Some (Num (f x))"
  shows "\<exists>i<length ks. py_max ks key = Inr (ks ! i) \<and>
           (\<forall>j<i. f (ks ! j) < f (ks ! i)) \<and> (\<forall>j<length ks. f (ks ! j) \<le> f (ks ! i))"
proof -
  from ne obtain b xs where ks: "ks = b # xs" by (cases ks) auto
  have "\<And>x. x \<in> set (b # xs) \<Longrightarrow> key x = Some (Num (f x))" using key ks by simp
  from max_from_first[of b xs key f, OF this] obtain r where r: "max_from key b xs = Inr r"
      and alt: "(r = b \<and> (\<forall>y\<in>set xs. f y \<le> f b)) \<or>
            (\<exists>i<length xs. r = xs ! i \<and> f b < f (xs ! i) \<and>
               (\<forall>j<i. f (xs ! j) < f (xs ! i)) \<and> (\<forall>y\<in>set xs. f y \<le> f (xs ! i)))"
    by blast
  have pm: "py_max ks key = Inr r" using r ks by (simp add: py_max_def)
  from alt show ?thesis
  proof
    assume a: "r = b \<and> (\<forall>y\<in>set xs. f y \<le> f b)"
    have "0 < length ks \<and> py_max ks key = Inr (ks ! 0) \<and>
           (\<forall>j<0. f (ks ! j) < f (ks ! 0)) \<and> (\<forall>j<length ks. f (ks ! j) \<le> f (ks ! 0))"
      using a pm ks by (auto simp: nth_Cons split: nat.splits)
    then show ?thesis by blast
  next
    assume "\<exists>i<length xs. r = xs ! i \<and> f b < f (xs ! i) \<and>
               (\<forall>j<i. f (xs ! j) < f (xs ! i)) \<and> (\<forall>y\<in>set xs. f y \<le> f (xs ! i))"
    then obtain i where i: "i < length xs" "r = xs ! i" "f b < f (xs ! i)"
        "\<forall>j<i. f (xs ! j) < f (xs ! i)" "\<forall>y\<in>set xs. f y \<le> f (xs ! i)"
      by blast
    have "Suc i < length ks \<and> py_max ks key = Inr (ks ! Suc i) \<and>
           (\<forall>j<Suc i. f (ks ! j) < f (ks ! Suc i)) \<and> (\<forall>j<length ks. f (ks ! j) \<le> f (ks ! Suc i))"
      using i pm ks by (auto simp: nth_Cons less_Suc_eq_0_disj split: nat.splits)
    then show ?thesis by blast
  qed
qed

subsection \<open>The assembled result\<close>

lemma max_from_total:
  assumes "\<And>x. x \<in> set (b # xs) \<Longrightarrow> key x \<noteq> None"
  shows "\<exists>r. max_from key b xs = Inr r \<and> r \<in> set (b # xs)"
  using assms
proof (induction xs arbitrary: b)
  case Nil
  then show ?case by simp
next
  case (Cons x xs)
  from Cons.prems obtain vx vb where kx: "key x = Some vx" and kb: "key b = Some vb"
    by fastforce
  let ?b' = "if float_gt vx vb then x else b"
  have step: "max_from key b (x # xs) = max_from key ?b' xs"
    using kx kb by (simp add: py_gt_def)
  have "\<And>y. y \<in> set (?b' # xs) \<Longrightarrow> key y \<noteq> None"
    using Cons.prems by auto
  from Cons.IH[of ?b', OF this] obtain r where r: "max_from key ?b' xs = Inr r"
    and mem: "r \<in> set (?b' # xs)"
    by blast
  from mem have "r \<in> set (b # x # xs)" by (auto split: if_splits)
  with r step show ?case by simp
qed

lemma py_max_total:
  assumes ne: "ks \<noteq> []" and key: "\<And>x. x \<in> set ks \<Longrightarrow> key x \<noteq> None"
  shows "\<exists>i<length ks. py_max ks key = Inr (ks ! i)"
proof -
  from ne obtain b xs where ks: "ks = b # xs" by (cases ks) auto
  have "\<And>x. x \<in> set (b # xs) \<Longrightarrow> key x \<noteq> None" using key ks by simp
  from max_from_total[of b xs key, OF this] obtain r
    where r: "max_from key b xs = Inr r" and mem: "r \<in> set ks"
    using ks by auto
  from mem obtain i where "i < length ks" "ks ! i = r" by (auto simp: in_set_conv_nth)
  moreover have "py_max ks key = Inr r" using r ks by (simp add: py_max_def)
  ultimately show ?thesis by auto
qed

lemma map_of_zip_nth_take:
  "distinct ks \<Longrightarrow> j < length ks \<Longrightarrow> j < length vs \<Longrightarrow>
   map_of (zip ks vs) (ks ! j) = Some (vs ! j)"
proof (induction ks arbitrary: vs j)
  case Nil
  then show ?case by simp
next
  case (Cons k ks)
  then obtain v vs' where vs: "vs = v # vs'" by (cases vs) auto
  show ?case
  proof (cases j)
    case 0
    then show ?thesis using vs by simp
  next
    case (Suc j')
    with Cons.prems vs have "map_of (zip ks vs') (ks ! j') = Some (vs' ! j')"
      by (intro Cons.IH) auto
    moreover have "ks ! j' \<noteq> k" using Cons.prems Suc by auto
    ultimately show ?thesis using vs Suc by simp
  qed
qed

text \<open>What the assembly builds from a non-empty score list, whatever the scores are.\<close>

lemma assembly_parts:
  assumes dist: "distinct cls" and ne: "scores \<noteq> []" and cne: "cls \<noteq> []"
  shows "dict (zip cls scores) = zip cls scores"
    and "dict_keys (zip cls scores) \<noteq> []"
    and "length (dict_keys (zip cls scores)) = min (length cls) (length scores)"
    and "\<And>j. j < min (length cls) (length scores) \<Longrightarrow> dict_keys (zip cls scores) ! j = cls ! j"
    and "\<And>j. j < min (length cls) (length scores) \<Longrightarrow>
           dict_get (zip cls scores) (cls ! j) = Some (scores ! j)"
    and "\<And>j. j < min (length cls) (length scores) \<Longrightarrow>
           dict_getitem (zip cls scores) (cls ! j) = Inr (scores ! j)"
proof -
  show "dict (zip cls scores) = zip cls scores" by (rule dict_zip_distinct[OF dist])
  show len: "length (dict_keys (zip cls scores)) = min (length cls) (length scores)"
    by (simp add: dict_keys_def)
  show "dict_keys (zip cls scores) \<noteq> []"
    using ne cne by (cases cls; cases scores) (simp_all add: dict_keys_def)
  show "dict_keys (zip cls scores) ! j = cls ! j" if "j < min (length cls) (length scores)" for j
    using that by (simp add: dict_keys_def)
  have val: "map_of (zip cls scores) (cls ! j) = Some (scores ! j)"
    if "j < min (length cls) (length scores)" for j
    using that by (intro map_of_zip_nth_take dist) simp_all
  show "dict_get (zip cls scores) (cls ! j) = Some (scores ! j)"
    if "j < min (length cls) (length scores)" for j
    using val[OF that] by (simp add: dict_get_def)
  show "dict_getitem (zip cls scores) (cls ! j) = Inr (scores ! j)"
    if "j < min (length cls) (length scores)" for j
    using val[OF that] by (simp add: dict_getitem_def)
qed

lemma classes_nonempty: "classes \<noteq> []"
  by (simp add: classes_def)

lemma predict_assembly_total:
  assumes ne: "scores \<noteq> []"
  shows "\<exists>i<min 10 (length scores).
           predict_assembly scores = Inr (zip classes scores, classes ! i, scores ! i)"
proof -
  let ?d = "zip classes scores"
  let ?ks = "dict_keys ?d"
  note p = assembly_parts[OF distinct_classes ne classes_nonempty]
  have key: "dict_get ?d x \<noteq> None" if "x \<in> set ?ks" for x
  proof -
    from that obtain j where "j < length ?ks" "?ks ! j = x" by (auto simp: in_set_conv_nth)
    then show ?thesis using p(3) p(4)[of j] p(5)[of j] by auto
  qed
  from py_max_total[of ?ks "dict_get ?d", OF p(2) key]
  obtain i where i: "i < length ?ks" "py_max ?ks (dict_get ?d) = Inr (?ks ! i)" by blast
  have in_n: "i < min (length classes) (length scores)" using i(1) p(3) by simp
  have "predict_assembly scores = Inr (?d, classes ! i, scores ! i)"
    using i(2) p(1) p(4)[OF in_n] p(6)[OF in_n] by (simp add: predict_assembly_def)
  with in_n show ?thesis by (auto simp: length_classes)
qed

text \<open>When no score is NaN, the top class is the first one with the greatest score.\<close>

lemma predict_assembly_first_max:
  assumes ne: "xs \<noteq> []"
  shows "\<exists>i<min 10 (length xs).
           predict_assembly (map Num xs) =
             Inr (zip classes (map Num xs), classes ! i, Num (xs ! i)) \<and>
           (\<forall>j<i. xs ! j < xs ! i) \<and>
           (\<forall>j<min 10 (length xs). xs ! j \<le> xs ! i)"
proof -
  let ?scores = "map Num xs"
  let ?d = "zip classes ?scores"
  let ?n = "min (length classes) (length ?scores)"
  let ?ks = "dict_keys ?d"
  let ?f = "\<lambda>k. xs ! (THE j. j < ?n \<and> classes ! j = k)"
  have sne: "?scores \<noteq> []" using ne by simp
  note p = assembly_parts[OF distinct_classes sne classes_nonempty]
  have the_j: "(THE j'. j' < ?n \<and> classes ! j' = classes ! j) = j" if "j < ?n" for j
  proof (rule the_equality)
    show "j < ?n \<and> classes ! j = classes ! j" using that by simp
  next
    fix j' assume "j' < ?n \<and> classes ! j' = classes ! j"
    with that show "j' = j"
      using nth_eq_iff_index_eq[OF distinct_classes, of j' j] by simp
  qed
  have fval: "?f (?ks ! j) = xs ! j" if "j < ?n" for j
    using that p(4)[OF that] the_j[OF that] by simp
  have key: "dict_get ?d x = Some (Num (?f x))" if "x \<in> set ?ks" for x
  proof -
    from that obtain j where j: "j < length ?ks" "?ks ! j = x" by (auto simp: in_set_conv_nth)
    then have jn: "j < ?n" using p(3) by simp
    have "dict_get ?d (classes ! j) = Some (?scores ! j)" by (rule p(5)[OF jn])
    moreover have "?scores ! j = Num (xs ! j)" using jn by simp
    moreover have "x = classes ! j" using j(2) p(4)[OF jn] by simp
    ultimately show ?thesis using fval[OF jn] j(2) by simp
  qed
  from py_max_first[of ?ks "dict_get ?d" ?f, OF p(2) key]
  obtain i where i: "i < length ?ks" "py_max ?ks (dict_get ?d) = Inr (?ks ! i)"
    "\<forall>j<i. ?f (?ks ! j) < ?f (?ks ! i)" "\<forall>j<length ?ks. ?f (?ks ! j) \<le> ?f (?ks ! i)"
    by blast
  have in_n: "i < ?n" using i(1) p(3) by simp
  have si: "?scores ! i = Num (xs ! i)" using in_n by simp
  have a: "predict_assembly ?scores = Inr (?d, classes ! i, Num (xs ! i))"
    using i(2) p(1) p(4)[OF in_n] p(6)[OF in_n] si by (simp add: predict_assembly_def)
  have b: "\<forall>j<i. xs ! j < xs ! i"
  proof (intro allI impI)
    fix j assume ji: "j < i"
    then have jn: "j < ?n" using in_n by simp
    from i(3) ji have "?f (?ks ! j) < ?f (?ks ! i)" by blast
    then show "xs ! j < xs ! i" by (simp only: fval[OF jn] fval[OF in_n])
  qed
  have c: "\<forall>j<min 10 (length xs). xs ! j \<le> xs ! i"
  proof (intro allI impI)
    fix j assume "j < min 10 (length xs)"
    then have jn: "j < ?n" by (simp add: length_classes)
    then have "j < length ?ks" using p(3) by simp
    with i(4) have "?f (?ks ! j) \<le> ?f (?ks ! i)" by blast
    then show "xs ! j \<le> xs ! i" by (simp only: fval[OF jn] fval[OF in_n])
  qed
  from in_n a b c show ?thesis by (auto simp: length_classes)
qed

lemma predict_assembly_empty: "predict_assembly [] = Inl ValueError"
  by (simp add: predict_assembly_def dict_def dict_keys_def py_max_def)


lemma predict_result_assembled:
  assumes "predict c u = (trace, Inr r)"
  shows "\<exists>scores. predict_assembly scores = Inr r"
  using assms by (auto simp: predict_def split: sum.splits)



lemma predict_assembly_in_import:
  assumes "classes_list g = classes"
  shows "predict_assembly_in g scores = (g, predict_assembly scores)"
  using assms by (simp add: predict_assembly_in_def predict_assembly_def Let_def split: sum.splits)

subsection \<open>Results whose scores are numbers\<close>

lemma zip_take_right: "length xs = n \<Longrightarrow> zip xs (take n ys) = zip xs ys"
proof (induction xs arbitrary: ys n)
  case Nil
  then show ?case by simp
next
  case (Cons x xs)
  then obtain m where n: "n = Suc m" and m: "length xs = m" by (cases n) auto
  show ?case
  proof (cases ys)
    case Nil
    then show ?thesis by simp
  next
    case (Cons y ys')
    with n Cons.IH[OF m, of ys'] show ?thesis by simp
  qed
qed

lemma predict_assembly_take: "predict_assembly (take 10 scores) = predict_assembly scores"
proof -
  have "zip classes (take 10 scores) = zip classes scores"
    by (rule zip_take_right[OF length_classes])
  then show ?thesis by (simp add: predict_assembly_def)
qed

lemma predict_assembly_numbers:
  assumes run: "predict_assembly scores = Inr (d, top_cls, top_prob)"
    and vals: "dict_values d = map Num vs"
  shows "top_prob = Num (Max (set vs)) \<and> top_cls \<in> set (dict_keys d) \<and>
         dict_get d top_cls = Some top_prob"
proof -
  have ne: "scores \<noteq> []"
    using run by (auto simp: predict_assembly_empty)
  from predict_assembly_total[OF ne] run have d: "d = zip classes scores" by auto
  have "dict_values d = take 10 scores"
    using d by (simp add: dict_values_def map_snd_zip_take length_classes min_def)
  with vals have tk: "take 10 scores = map Num vs" by simp
  have vne: "vs \<noteq> []" using tk ne by auto
  have len: "length vs \<le> 10"
  proof -
    have "length vs = length (take 10 scores)" using tk by simp
    then show ?thesis by simp
  qed
  have "predict_assembly (map Num vs) = Inr (d, top_cls, top_prob)"
    using run tk predict_assembly_take[of scores] by simp
  with predict_assembly_first_max[OF vne]
  obtain i where i: "i < min 10 (length vs)" "d = zip classes (map Num vs)"
    "top_cls = classes ! i" "top_prob = Num (vs ! i)"
    "\<forall>j<min 10 (length vs). vs ! j \<le> vs ! i"
    by auto
  have il: "i < length vs" using i(1) by simp
  have "\<forall>y\<in>set vs. y \<le> vs ! i"
    using i(5) len by (auto simp: in_set_conv_nth min_def)
  moreover have "vs ! i \<in> set vs" using il by simp
  ultimately have "Max (set vs) = vs ! i" by (intro Max_eqI) auto
  then have a: "top_prob = Num (Max (set vs))" using i(4) by simp
  have keys: "dict_keys d = take (length vs) classes"
    using i(2) by (simp add: dict_keys_def map_fst_zip_take min_def)
  have b: "top_cls \<in> set (dict_keys d)"
    using keys il len i(3)
    by (auto simp: in_set_conv_nth length_classes intro!: exI[of _ i])
  have "map_of (zip classes (map Num vs)) (classes ! i) = Some (map Num vs ! i)"
    using il len by (intro map_of_zip_nth_take distinct_classes) (simp_all add: length_classes)
  then have c: "dict_get d top_cls = Some top_prob"
    using i(2,3,4) il by (simp add: dict_get_def)
  from a b c show ?thesis by blast
qed

section \<open>Claims about the prediction assembly\<close>

text \<open>
  Claim C5. Given the score vector \<open>[0.1, 0.05, 0.05, 0.05, 0.05, 0.1, 0.1, 0.1, 0.3, 0.1]\<close>
  in the fixed class order, the assembly returns the top class \<open>skirt\<close> with top
  probability \<open>0.3\<close>, and the returned mapping holds all 10 class names, each with the
  score at its position.
\<close>

theorem predict_assembly_example:
  "predict_assembly
     [Num 0.1, Num 0.05, Num 0.05, Num 0.05, Num 0.05, Num 0.1, Num 0.1, Num 0.1, Num 0.3,
      Num (0.1 :: real)] =
     Inr ([(''dress'', Num 0.1), (''hat'', Num 0.05), (''longsleeve'', Num 0.05),
           (''outwear'', Num 0.05), (''pants'', Num 0.05), (''shirt'', Num 0.1),
           (''shoes'', Num 0.1), (''shorts'', Num 0.1), (''skirt'', Num 0.3),
           (''t-shirt'', Num 0.1)],
          ''skirt'', Num 0.3)"
  by (simp add: predict_assembly_def classes_def dict_def dict_keys_def dict_get_def
      dict_getitem_def py_max_def py_gt_def float_gt_def)

text \<open>
  Claim C1, as stated, says that a score sequence whose length is not 10 makes the assembly
  fail with a shape-mismatch error. The code checks no length: on 9 scores it returns a
  result whose mapping has 9 entries.
\<close>

theorem predict_assembly_nine_scores:
  "predict_assembly
     [Num 0.1, Num 0.05, Num 0.05, Num 0.05, Num 0.05, Num 0.1, Num 0.1, Num 0.1,
      Num (0.4 :: real)] =
     Inr ([(''dress'', Num 0.1), (''hat'', Num 0.05), (''longsleeve'', Num 0.05),
           (''outwear'', Num 0.05), (''pants'', Num 0.05), (''shirt'', Num 0.1),
           (''shoes'', Num 0.1), (''shorts'', Num 0.1), (''skirt'', Num 0.4)],
          ''skirt'', Num 0.4)"
  by (simp add: predict_assembly_def classes_def dict_def dict_keys_def dict_get_def
      dict_getitem_def py_max_def py_gt_def float_gt_def)

text \<open>
  Claim C1, amended. The assembly does not validate the length of the score sequence and
  has no shape-mismatch error. An empty score sequence fails with \<^verbatim>\<open>ValueError\<close> (the
  maximum of an empty mapping). Every non-empty score sequence yields a result whose
  mapping pairs classes and scores by position up to the end of the shorter sequence: its
  keys are the first classes, one per score, and its values are the first 10 scores.
\<close>

theorem predict_assembly_any_length:
  "(scores = [] \<longrightarrow> predict_assembly scores = Inl ValueError) \<and>
   (scores \<noteq> [] \<longrightarrow>
      (\<exists>top_cls top_prob.
          predict_assembly scores = Inr (zip classes scores, top_cls, top_prob)) \<and>
      dict_keys (zip classes scores) = take (length scores) classes \<and>
      dict_values (zip classes scores) = take 10 scores)"
proof (intro conjI impI)
  assume "scores = []"
  then show "predict_assembly scores = Inl ValueError"
    by (simp add: predict_assembly_empty)
next
  assume "scores \<noteq> []"
  from predict_assembly_total[OF this]
  show "\<exists>top_cls top_prob. predict_assembly scores = Inr (zip classes scores, top_cls, top_prob)"
    by blast
next
  show "dict_keys (zip classes scores) = take (length scores) classes"
    by (simp add: dict_keys_def map_fst_zip_take min_def)
next
  show "dict_values (zip classes scores) = take 10 scores"
    by (simp add: dict_values_def map_snd_zip_take length_classes min_def)
qed

theorem predict_assembly_any_length_witness:
  "predict_assembly ([] :: real pyfloat list) = Inl ValueError \<and>
   (\<exists>top_cls top_prob.
      predict_assembly
        [Num 0.1, Num 0.05, Num 0.05, Num 0.05, Num 0.05, Num 0.1, Num 0.1, Num 0.1, Num 0.3,
         Num 0.1, Num (0.9 :: real)] =
        Inr ([(''dress'', Num 0.1), (''hat'', Num 0.05), (''longsleeve'', Num 0.05),
              (''outwear'', Num 0.05), (''pants'', Num 0.05), (''shirt'', Num 0.1),
              (''shoes'', Num 0.1), (''shorts'', Num 0.1), (''skirt'', Num 0.3),
              (''t-shirt'', Num 0.1)], top_cls, top_prob))"
  using predict_assembly_any_length[of "[] :: real pyfloat list"]
    predict_assembly_any_length[of
      "[Num 0.1, Num 0.05, Num 0.05, Num 0.05, Num 0.05, Num 0.1, Num 0.1, Num 0.1, Num 0.3,
        Num 0.1, Num (0.9 :: real)]"]
  by (simp add: classes_def)




text \<open>
  Claim C4, as stated, speaks of every result of \<^verbatim>\<open>predict\<close>. When the model returns NaN
  for the first class, \<^verbatim>\<open>predict\<close> returns a result whose top class is \<open>dress\<close> and whose
  top probability is NaN, while the mapping holds the value \<open>0.7\<close>: the top probability is
  not greater than or equal to that value, so it is not the maximum of the values.
\<close>

theorem predict_nan_top_probability:
  "predict
     (service_returning
        [NaN, Num 0.7, Num 0.2, Num 0.1, Num 0, Num 0, Num 0, Num 0, Num 0, Num 0])
     ''http://bit.ly/mlbookcamp-pants'' =
     ([FromUrl ''http://bit.ly/mlbookcamp-pants'', SessionRun],
      Inr ([(''dress'', NaN), (''hat'', Num 0.7), (''longsleeve'', Num 0.2),
            (''outwear'', Num 0.1), (''pants'', Num 0), (''shirt'', Num 0),
            (''shoes'', Num 0), (''shorts'', Num 0), (''skirt'', Num 0),
            (''t-shirt'', Num 0)],
           ''dress'', NaN)) \<and>
   \<not> float_ge NaN (Num (0.7 :: real))"
  by (simp add: predict_def service_returning_def getitem0_def predict_assembly_def
      classes_def dict_def dict_keys_def dict_get_def dict_getitem_def py_max_def py_gt_def
      float_gt_def float_ge_def)

text \<open>
  Claim C4, amended. For every result that \<^verbatim>\<open>predict\<close> returns whose predictions mapping
  holds no NaN, the top probability is the maximum of the values of the mapping, and the
  top class is a key of the mapping whose value is the top probability.
\<close>

theorem predict_top_is_maximum:
  assumes "predict c u = (trace, Inr (d, top_cls, top_prob))"
    and "dict_values d = map Num vs"
  shows "top_prob = Num (Max (set vs)) \<and> top_cls \<in> set (dict_keys d) \<and>
         dict_get d top_cls = Some top_prob"
proof -
  from predict_result_assembled[OF assms(1)]
  obtain scores where "predict_assembly scores = Inr (d, top_cls, top_prob)" by blast
  then show ?thesis using assms(2) by (rule predict_assembly_numbers)
qed

theorem predict_top_is_maximum_witness:
  "predict example_service ''http://bit.ly/mlbookcamp-pants'' =
     ([FromUrl ''http://bit.ly/mlbookcamp-pants'', SessionRun],
      Inr (zip classes example_scores, ''skirt'', Num 0.3)) \<and>
   dict_values (zip classes example_scores) =
     map Num [0.1, 0.05, 0.05, 0.05, 0.05, 0.1, 0.1, 0.1, 0.3, 0.1] \<and>
   Num 0.3 = Num (Max (set [0.1, 0.05, 0.05, 0.05, 0.05, 0.1, 0.1, 0.1, 0.3, 0.1 :: real])) \<and>
   ''skirt'' \<in> set (dict_keys (zip classes example_scores)) \<and>
   dict_get (zip classes example_scores) ''skirt'' = Some (Num 0.3)"
proof -
  have h: "predict example_service ''http://bit.ly/mlbookcamp-pants'' =
     ([FromUrl ''http://bit.ly/mlbookcamp-pants'', SessionRun],
      Inr (zip classes example_scores, ''skirt'', Num 0.3))"
    by (simp add: predict_def example_service_def service_returning_def example_scores_def
        getitem0_def predict_assembly_def classes_def dict_def dict_keys_def dict_get_def
        dict_getitem_def py_max_def py_gt_def float_gt_def)
  have v: "dict_values (zip classes example_scores) =
     map Num [0.1, 0.05, 0.05, 0.05, 0.05, 0.1, 0.1, 0.1, 0.3, 0.1]"
    by (simp add: dict_values_def classes_def example_scores_def)
  from predict_top_is_maximum[OF h v] h v show ?thesis by blast
qed

section \<open>Claims about the service boundary\<close>

text \<open>
  Claim C7. Whatever the collaborators are (whatever the state of the model), a
  \<^verbatim>\<open>GET /health\<close> is answered with status 200 and the body \<^verbatim>\<open>{"status": "healthy"}\<close>,
  and no collaborator is called.
\<close>

theorem health_unconditional:
  "app c GetHealth = ([], Response 200 (HealthBody [(''status'', ''healthy'')]))"
  by (simp add: app_def health_def dict_def)

text \<open>
  Claim C8. A \<^verbatim>\<open>POST /predict\<close> whose URL the validator rejects is answered with the
  validation error, status 422, and no collaborator has been called: neither the image
  fetch nor the model has run.
\<close>

theorem invalid_url_rejected:
  assumes "HttpUrl c u = None"
  shows "app c (PostPredict (Some u)) = ([], Response 422 ValidationError)"
  using assms by (simp add: app_def validate_PredictRequest_def)

theorem invalid_url_rejected_witness:
  "HttpUrl example_service ''pants.jpg'' = None \<and>
   app example_service (PostPredict (Some ''pants.jpg'')) = ([], Response 422 ValidationError)"
proof -
  have h: "HttpUrl example_service ''pants.jpg'' = None"
    by (simp add: example_service_def service_returning_def)
  from invalid_url_rejected[OF h] h show ?thesis by simp
qed

section \<open>Properties of the preprocessing transform\<close>

subsection \<open>The heap only grows\<close>

text \<open>
  Every operation of the transform allocates its result or returns a view; none writes to
  a buffer that exists. So the heap after a call is the heap before it, extended.
\<close>

lemma alloc_heap: "fst (alloc h dt shp buf) = h @ [buf]"
  by (simp add: alloc_def)

lemma elementwise_heap: "\<exists>ext. fst (elementwise f dt h a) = h @ ext"
  by (simp add: elementwise_def alloc_def)

lemma elementwise2_heap: "\<exists>ext. fst (elementwise2 f h a b) = h @ ext"
  by (simp add: elementwise2_def alloc_def split: option.splits)

lemma preprocess_heap: "\<exists>ext. fst (preprocess_pytorch_style ar h X) = h @ ext"
  by (simp add: preprocess_pytorch_style_def elementwise_def elementwise2_def alloc_def
      np_array_def split: option.splits sum.splits prod.splits)

lemma preprocess_heap_prefix:
  "take (length h) (fst (preprocess_pytorch_style ar h X)) = h"
proof -
  obtain ext where "fst (preprocess_pytorch_style ar h X) = h @ ext"
    using preprocess_heap by blast
  then show ?thesis by simp
qed

lemma preprocess_heap_nth:
  assumes "a < length h"
  shows "fst (preprocess_pytorch_style ar h X) ! a = h ! a"
proof -
  obtain ext where "fst (preprocess_pytorch_style ar h X) = h @ ext"
    using preprocess_heap by blast
  with assms show ?thesis by (simp add: nth_append)
qed


subsection \<open>Reading an allocated array\<close>

text \<open>
  The buffer of an allocated array lists its elements in the order of \<^const>\<open>indices\<close>, and
  the row-major offset of an index is its position in that list.
\<close>

lemma length_concat_uniform:
  "(\<And>x. length (F x) = L) \<Longrightarrow> length (concat (map F [0..<d])) = d * L"
  by (induction d) simp_all

lemma nth_concat_uniform:
  assumes "\<And>x. length (F x) = L" and "i < d" and "k < L"
  shows "concat (map F [0..<d]) ! (i * L + k) = F i ! k"
  using assms(2)
proof (induction d)
  case 0
  then show ?case by simp
next
  case (Suc d)
  have len: "length (concat (map F [0..<d])) = d * L"
    using assms(1) by (rule length_concat_uniform)
  show ?case
  proof (cases "i < d")
    case True
    then have "Suc i \<le> d" by simp
    then have "Suc i * L \<le> d * L" by (rule mult_le_mono1)
    with assms(3) have "i * L + k < d * L" by simp
    with Suc.IH[OF True] len show ?thesis by (simp add: nth_append)
  next
    case False
    with Suc.prems have "i = d" by simp
    with len show ?thesis by (simp add: nth_append)
  qed
qed

lemma length_indices: "length (indices shp) = prod_list shp"
proof (induction shp)
  case Nil
  then show ?case by simp
next
  case (Cons d ds)
  have "length (concat (map (\<lambda>i. map ((#) i) (indices ds)) [0..<d])) = d * prod_list ds"
    by (rule length_concat_uniform) (simp add: Cons.IH)
  then show ?case by simp
qed

lemma offset_Cons: "offset (s # strd) (i # idx) = i * s + offset strd idx"
  by (simp add: offset_def)

lemma offset_Nil: "offset [] [] = 0"
  by (simp add: offset_def)

lemma nth_indices:
  assumes "list_all2 (<) idx shp"
  shows "offset (c_strides shp) idx < prod_list shp \<and>
         indices shp ! offset (c_strides shp) idx = idx"
  using assms
proof (induction idx shp rule: list_all2_induct)
  case Nil
  show ?case by (simp add: offset_Nil)
next
  case (Cons i rest d ds)
  let ?k = "offset (c_strides ds) rest"
  let ?L = "prod_list ds"
  let ?F = "\<lambda>i. map ((#) i) (indices ds)"
  from Cons.IH have k: "?k < ?L" and nth: "indices ds ! ?k = rest" by simp_all
  have lenF: "\<And>x. length (?F x) = ?L" by (simp add: length_indices)
  have off: "offset (c_strides (d # ds)) (i # rest) = i * ?L + ?k"
    by (simp add: offset_Cons)
  have "Suc i \<le> d" using Cons.hyps(1) by simp
  then have "Suc i * ?L \<le> d * ?L" by (rule mult_le_mono1)
  with k have bound: "i * ?L + ?k < d * ?L" by simp
  have "concat (map ?F [0..<d]) ! (i * ?L + ?k) = ?F i ! ?k"
    using lenF Cons.hyps(1) k by (rule nth_concat_uniform)
  also have "\<dots> = i # rest" using k nth by (simp add: length_indices)
  finally have "indices (d # ds) ! (i * ?L + ?k) = i # rest" by simp
  with off bound show ?case by simp
qed

lemma getitem_alloc:
  assumes "list_all2 (<) idx shp"
  shows "getitem (h @ [map g (indices shp)])
           \<lparr>data = length h, dtype = dt, shape = shp, strides = c_strides shp\<rparr> idx = g idx"
proof -
  from nth_indices[OF assms] show ?thesis
    by (simp add: getitem_def length_indices)
qed

lemma getitem_heap_ext: "data a < length h \<Longrightarrow> getitem (h @ ext) a idx = getitem h a idx"
  by (simp add: getitem_def nth_append)

subsection \<open>The elements of the results of the operations\<close>

lemma elementwise_result:
  assumes "elementwise f dt h a = (h', r)"
  shows "h' = h @ [map (\<lambda>idx. f (getitem h a idx)) (indices (shape a))]"
    and "r = \<lparr>data = length h, dtype = dt, shape = shape a, strides = c_strides (shape a)\<rparr>"
  using assms by (auto simp: elementwise_def alloc_def)

lemma getitem_elementwise:
  assumes "elementwise f dt h a = (h', r)" and "list_all2 (<) idx (shape a)"
  shows "getitem h' r idx = f (getitem h a idx)"
  using getitem_alloc[OF assms(2), of h "\<lambda>idx. f (getitem h a idx)"] elementwise_result[OF assms(1)]
  by simp

lemma elementwise2_result:
  assumes "broadcast_shapes (shape a) (shape b) = Some shp"
  shows "elementwise2 f h a b =
           (h @ [map (\<lambda>idx. f (result_type (dtype a) (dtype b))
                                (getitem h a (broadcast_index (shape a) idx))
                                (getitem h b (broadcast_index (shape b) idx)))
                     (indices shp)],
            Inr \<lparr>data = length h, dtype = result_type (dtype a) (dtype b), shape = shp,
                 strides = c_strides shp\<rparr>)"
  using assms by (simp add: elementwise2_def alloc_def)

lemma getitem_elementwise2:
  assumes "broadcast_shapes (shape a) (shape b) = Some shp" and "list_all2 (<) idx shp"
  shows "getitem (fst (elementwise2 f h a b))
           \<lparr>data = length h, dtype = dt, shape = shp, strides = c_strides shp\<rparr> idx =
           f (result_type (dtype a) (dtype b))
             (getitem h a (broadcast_index (shape a) idx))
             (getitem h b (broadcast_index (shape b) idx))"
  using getitem_alloc[OF assms(2), of h
      "\<lambda>idx. f (result_type (dtype a) (dtype b))
                 (getitem h a (broadcast_index (shape a) idx))
                 (getitem h b (broadcast_index (shape b) idx))"]
  by (simp add: elementwise2_result[OF assms(1)])

lemma broadcast_channels:
  "broadcast_shapes [B, 3, H, W] [1, 3, 1, 1] = Some [B, 3, H, W]"
  by (simp add: broadcast_shapes_def pad_shape_def)

lemma broadcast_index_full:
  "b < B \<Longrightarrow> i < H \<Longrightarrow> j < W \<Longrightarrow> broadcast_index [B, 3, H, W] [b, c, i, j] = [b, c, i, j]"
  by (auto simp: broadcast_index_def)

lemma broadcast_index_channel:
  "broadcast_index [1, 3, 1, 1] [b, c, i, j] = [0, c, 0, 0]"
  by (simp add: broadcast_index_def)

subsection \<open>The elements of the result of the transform\<close>

text \<open>
  For an input of shape \<open>(B, H, W, 3)\<close> the transform returns a \<^verbatim>\<open>float32\<close> array of
  shape \<open>(B, 3, H, W)\<close>; its element at \<open>(b, c, i, j)\<close> is computed from the input's
  element at \<open>(b, i, j, c)\<close> by dividing by 255 in the element type of the input,
  subtracting the mean of channel \<open>c\<close> and dividing by the deviation of channel \<open>c\<close> in
  \<^verbatim>\<open>float64\<close>, and casting to \<^verbatim>\<open>float32\<close>.
\<close>

lemma preprocess_elements:
  assumes shp: "shape X = [B, H, W, 3]"
  shows "\<exists>h' Y. preprocess_pytorch_style ar h X = (h', Inr Y) \<and>
           dtype Y = Float32 \<and> shape Y = [B, 3, H, W] \<and>
           (\<forall>b c i j. b < B \<and> c < 3 \<and> i < H \<and> j < W \<longrightarrow>
              getitem h' Y [b, c, i, j] =
                astype ar Float32
                  (true_divide ar Float64
                     (subtract ar Float64
                        (true_divide ar (dtype X) (getitem h X [b, i, j, c])
                           (astype ar (dtype X) (python_float ar 255)))
                        (python_float ar ([0.485, 0.456, 0.406] ! c)))
                     (python_float ar ([0.229, 0.224, 0.225] ! c))))"
proof -
  let ?f1 = "\<lambda>v. true_divide ar (dtype X) v (astype ar (dtype X) (python_float ar 255))"
  let ?mb = "map (python_float ar) [0.485, 0.456, 0.406]"
  let ?sb = "map (python_float ar) [0.229, 0.224, 0.225]"
  let ?out = "[B, 3, H, W]"
  define buf1 where "buf1 = map (\<lambda>idx. ?f1 (getitem h X idx)) (indices [B, H, W, 3])"
  define h3 where "h3 = h @ [buf1, ?mb, ?sb]"
  define X2 where "X2 =
    \<lparr>data = length h, dtype = dtype X, shape = ?out, strides = [H * (W * 3), 1, W * 3, 3]\<rparr>"
  define mean where "mean =
    \<lparr>data = Suc (length h), dtype = Float64, shape = [1, 3, 1, 1], strides = [3, 1, 1, 1]\<rparr>"
  define std where "std =
    \<lparr>data = Suc (Suc (length h)), dtype = Float64, shape = [1, 3, 1, 1], strides = [3, 1, 1, 1]\<rparr>"
  define X3 where "X3 =
    \<lparr>data = length h3, dtype = Float64, shape = ?out, strides = c_strides ?out\<rparr>"
  define h4 where "h4 = fst (elementwise2 (subtract ar) h3 X2 mean)"
  define X4 where "X4 =
    \<lparr>data = length h4, dtype = Float64, shape = ?out, strides = c_strides ?out\<rparr>"
  define h5 where "h5 = fst (elementwise2 (true_divide ar) h4 X3 std)"
  define h6 where "h6 = fst (elementwise (astype ar Float32) Float32 h5 X4)"
  define X5 where "X5 = snd (elementwise (astype ar Float32) Float32 h5 X4)"

  have bc2: "broadcast_shapes (shape X2) (shape mean) = Some ?out"
    unfolding X2_def mean_def by (simp only: ndarray.select_convs broadcast_channels)
  have bc3: "broadcast_shapes (shape X3) (shape std) = Some ?out"
    unfolding X3_def std_def by (simp only: ndarray.select_convs broadcast_channels)
  have rt2: "result_type (dtype X2) (dtype mean) = Float64"
    by (simp add: result_type_def mean_def)
  have rt3: "result_type (dtype X3) (dtype std) = Float64"
    by (simp add: result_type_def std_def)
  have e4: "elementwise2 (subtract ar) h3 X2 mean = (h4, Inr X3)"
    unfolding h4_def X3_def by (simp add: elementwise2_result[OF bc2] rt2)
  have e5: "elementwise2 (true_divide ar) h4 X3 std = (h5, Inr X4)"
    unfolding h5_def X4_def by (simp add: elementwise2_result[OF bc3] rt3)
  have e6: "elementwise (astype ar Float32) Float32 h5 X4 = (h6, X5)"
    by (simp add: h6_def X5_def)
  have len4: "length h4 = Suc (length h3)"
    unfolding h4_def by (simp add: elementwise2_result[OF bc2])
  have ext4: "h4 = h3 @ [h4 ! length h3]"
    unfolding h4_def by (simp add: elementwise2_result[OF bc2])

  have run: "preprocess_pytorch_style ar h X = (h6, Inr X5)"
    using e4 e5 e6
    by (simp add: preprocess_pytorch_style_def elementwise_def alloc_def np_array_def
        reshape_def transpose_axes_def shp h3_def buf1_def X2_def mean_def std_def
        del: indices.simps)
  have shape5: "shape X5 = ?out"
    using elementwise_result(2)[OF e6] by (simp add: X4_def)
  have dtype5: "dtype X5 = Float32"
    using elementwise_result(2)[OF e6] by simp

  have elems: "getitem h6 X5 [b, c, i, j] =
      astype ar Float32
        (true_divide ar Float64 (subtract ar Float64 (?f1 (getitem h X [b, i, j, c])) (?mb ! c))
           (?sb ! c))"
    if r: "b < B" "c < 3" "i < H" "j < W" for b c i j
  proof -
    have in_out: "list_all2 (<) [b, c, i, j] ?out" using r by simp
    have in_X: "list_all2 (<) [b, i, j, c] [B, H, W, 3]" using r by simp
    have g6: "getitem h6 X5 [b, c, i, j] = astype ar Float32 (getitem h5 X4 [b, c, i, j])"
      using e6 in_out by (intro getitem_elementwise) (simp_all add: X4_def)
    have bi_out: "broadcast_index ?out [b, c, i, j] = [b, c, i, j]"
      using r by (intro broadcast_index_full)
    have bi2: "broadcast_index (shape X2) [b, c, i, j] = [b, c, i, j]"
      unfolding X2_def by (simp only: ndarray.select_convs bi_out)
    have bi3: "broadcast_index (shape X3) [b, c, i, j] = [b, c, i, j]"
      unfolding X3_def by (simp only: ndarray.select_convs bi_out)
    have bim: "broadcast_index (shape mean) [b, c, i, j] = [0, c, 0, 0]"
      unfolding mean_def by (simp only: ndarray.select_convs broadcast_index_channel)
    have bis: "broadcast_index (shape std) [b, c, i, j] = [0, c, 0, 0]"
      unfolding std_def by (simp only: ndarray.select_convs broadcast_index_channel)
    have "getitem h5 X4 [b, c, i, j] =
        true_divide ar (result_type (dtype X3) (dtype std))
          (getitem h4 X3 (broadcast_index (shape X3) [b, c, i, j]))
          (getitem h4 std (broadcast_index (shape std) [b, c, i, j]))"
      unfolding h5_def X4_def by (rule getitem_elementwise2[OF bc3 in_out])
    then have g5: "getitem h5 X4 [b, c, i, j] =
        true_divide ar Float64 (getitem h4 X3 [b, c, i, j]) (getitem h4 std [0, c, 0, 0])"
      by (simp only: bi3 bis rt3)
    have "getitem h4 X3 [b, c, i, j] =
        subtract ar (result_type (dtype X2) (dtype mean))
          (getitem h3 X2 (broadcast_index (shape X2) [b, c, i, j]))
          (getitem h3 mean (broadcast_index (shape mean) [b, c, i, j]))"
      unfolding h4_def X3_def by (rule getitem_elementwise2[OF bc2 in_out])
    then have g4: "getitem h4 X3 [b, c, i, j] =
        subtract ar Float64 (getitem h3 X2 [b, c, i, j]) (getitem h3 mean [0, c, 0, 0])"
      by (simp only: bi2 bim rt2)
    have gs: "getitem h4 std [0, c, 0, 0] = ?sb ! c"
      by (subst ext4) (simp add: getitem_def std_def offset_def h3_def nth_append)
    have gm: "getitem h3 mean [0, c, 0, 0] = ?mb ! c"
      by (simp add: getitem_def mean_def offset_def h3_def nth_append)
    have "getitem h3 X2 [b, c, i, j] = buf1 ! offset (c_strides [B, H, W, 3]) [b, i, j, c]"
      by (simp add: getitem_def X2_def offset_def h3_def nth_append algebra_simps)
    also have "\<dots> = ?f1 (getitem h X [b, i, j, c])"
      using nth_indices[OF in_X] unfolding buf1_def by (simp add: length_indices del: indices.simps c_strides.simps)
    finally have g2: "getitem h3 X2 [b, c, i, j] = ?f1 (getitem h X [b, i, j, c])" .
    show ?thesis by (simp only: g6 g5 g4 gs gm g2)
  qed
  have "\<forall>b c i j. b < B \<and> c < 3 \<and> i < H \<and> j < W \<longrightarrow>
      getitem h6 X5 [b, c, i, j] =
        astype ar Float32
          (true_divide ar Float64
             (subtract ar Float64
                (true_divide ar (dtype X) (getitem h X [b, i, j, c])
                   (astype ar (dtype X) (python_float ar 255)))
                (python_float ar ([0.485, 0.456, 0.406] ! c)))
             (python_float ar ([0.229, 0.224, 0.225] ! c)))"
  proof (intro allI impI)
    fix b c i j :: nat
    assume a: "b < B \<and> c < 3 \<and> i < H \<and> j < W"
    then have c3: "c < 3" by simp
    have m: "?mb ! c = python_float ar ([0.485, 0.456, 0.406] ! c)" using c3 by (intro nth_map) simp
    have s: "?sb ! c = python_float ar ([0.229, 0.224, 0.225] ! c)" using c3 by (intro nth_map) simp
    from a have "getitem h6 X5 [b, c, i, j] =
      astype ar Float32
        (true_divide ar Float64 (subtract ar Float64 (?f1 (getitem h X [b, i, j, c])) (?mb ! c))
           (?sb ! c))"
      by (intro elems) simp_all
    then show "getitem h6 X5 [b, c, i, j] =
        astype ar Float32
          (true_divide ar Float64
             (subtract ar Float64
                (true_divide ar (dtype X) (getitem h X [b, i, j, c])
                   (astype ar (dtype X) (python_float ar 255)))
                (python_float ar ([0.485, 0.456, 0.406] ! c)))
             (python_float ar ([0.229, 0.224, 0.225] ! c)))"
      by (simp only: m s)
  qed
  with run dtype5 shape5 show ?thesis by blast
qed

section \<open>Properties of IEEE rounding\<close>

subsection \<open>The error of one rounding\<close>

text \<open>
  Rounding moves a number by at most half a unit in the last place: by at most its
  magnitude times \<open>2\<^sup>-\<^sup>p\<close> in the normal range, and by at most half the least subnormal
  below it.
\<close>

lemma pow2_le: "a \<le> b \<Longrightarrow> (2::real) powi a \<le> 2 powi b"
  by (rule power_int_increasing) simp_all

lemma pow2_less: "a < b \<Longrightarrow> (2::real) powi a < 2 powi b"
  by (rule power_int_strict_increasing) simp_all

lemma pow2_less_cancel: "(2::real) powi a < 2 powi b \<Longrightarrow> a < b"
proof (rule ccontr)
  assume lt: "(2::real) powi a < 2 powi b" and "\<not> a < b"
  then have "b \<le> a" by simp
  then have "(2::real) powi b \<le> 2 powi a" by (rule pow2_le)
  with lt show False by simp
qed

lemma exponent_from_low:
  "e \<le> exponent_from n e x \<and>
   (exponent_from n e x = e \<or> 2 powi (exponent_from n e x) \<le> x)"
proof (induction n arbitrary: e)
  case 0
  show ?case by simp
next
  case (Suc n)
  show ?case
  proof (cases "2 powi (e + 1) \<le> x")
    case True
    from Suc.IH[of "e + 1"] True show ?thesis by auto
  next
    case False
    then show ?thesis by simp
  qed
qed

lemma exponent_low:
  "emin dt \<le> exponent dt x \<and>
   (exponent dt x = emin dt \<or> 2 powi (exponent dt x) \<le> \<bar>x\<bar>)"
  unfolding exponent_def by (rule exponent_from_low)

lemma exponent_from_eq:
  assumes "e \<le> E" and "E \<le> e + int n" and "2 powi E \<le> x" and "x < 2 powi (E + 1)"
  shows "exponent_from n e x = E"
  using assms
proof (induction n arbitrary: e)
  case 0
  then show ?case by simp
next
  case (Suc n)
  show ?case
  proof (cases "2 powi (e + 1) \<le> x")
    case True
    with Suc.prems(4) have "(2::real) powi (e + 1) < 2 powi (E + 1)" by simp
    then have "e + 1 < E + 1" by (rule pow2_less_cancel)
    then have "e + 1 \<le> E" by simp
    moreover have "E \<le> (e + 1) + int n" using Suc.prems(2) by simp
    ultimately have "exponent_from n (e + 1) x = E"
      using Suc.prems(3,4) by (intro Suc.IH)
    with True show ?thesis by simp
  next
    case False
    then have "x < 2 powi (e + 1)" by simp
    with Suc.prems(3) have "(2::real) powi E < 2 powi (e + 1)" by simp
    then have "E < e + 1" by (rule pow2_less_cancel)
    with Suc.prems(1) have "E = e" by simp
    with False show ?thesis by simp
  qed
qed

lemma exponent_eq:
  assumes "emin dt \<le> E" and "E \<le> emax dt" and "2 powi E \<le> \<bar>x\<bar>" and "\<bar>x\<bar> < 2 powi (E + 1)"
  shows "exponent dt x = E"
  unfolding exponent_def using assms by (intro exponent_from_eq) simp_all

lemma round_half_even_error: "\<bar>of_int (round_half_even m) - m\<bar> \<le> 1 / 2"
proof -
  have lo: "of_int \<lfloor>m\<rfloor> \<le> m" and hi: "m < of_int \<lfloor>m\<rfloor> + 1" by linarith+
  show ?thesis
    unfolding round_half_even_def Let_def using lo hi by (auto split: if_splits) 
qed

lemma round_half_even_int: "round_half_even (of_int k) = k"
  by (simp add: round_half_even_def)

lemma ieee_round_error_ulp:
  "\<bar>ieee_round dt x - x\<bar> \<le> 2 powi (exponent dt x - precision dt)"
proof -
  let ?u = "(2::real) powi (exponent dt x - precision dt + 1)"
  have upos: "0 < ?u" by simp
  have "ieee_round dt x - x = (of_int (round_half_even (x / ?u)) - x / ?u) * ?u"
    using upos by (simp add: ieee_round_def Let_def field_simps)
  then have "\<bar>ieee_round dt x - x\<bar> = \<bar>of_int (round_half_even (x / ?u)) - x / ?u\<bar> * ?u"
    using upos by (simp add: abs_mult)
  also have "\<dots> \<le> (1 / 2) * ?u"
    using round_half_even_error[of "x / ?u"] upos by (intro mult_right_mono) simp_all
  also have "\<dots> = 2 powi (exponent dt x - precision dt)"
    by (simp add: power_int_add)
  finally show ?thesis .
qed

lemma ieee_round_error:
  "\<bar>ieee_round dt x - x\<bar> \<le> \<bar>x\<bar> * 2 powi (- precision dt) + 2 powi (emin dt - precision dt)"
proof -
  let ?e = "exponent dt x"
  let ?p = "precision dt"
  from exponent_low[of dt x] consider "?e = emin dt" | "2 powi ?e \<le> \<bar>x\<bar>" by blast
  then have "(2::real) powi (?e - ?p) \<le> \<bar>x\<bar> * 2 powi (- ?p) + 2 powi (emin dt - ?p)"
  proof cases
    case 1
    have "0 \<le> \<bar>x\<bar> * 2 powi (- ?p)" by simp
    with 1 show ?thesis by simp
  next
    case 2
    have "(2::real) powi (?e - ?p) = 2 powi ?e * 2 powi (- ?p)"
      by (simp add: power_int_diff power_int_minus field_simps)
    also have "\<dots> \<le> \<bar>x\<bar> * 2 powi (- ?p)"
      using 2 by (intro mult_right_mono) simp_all
    finally have "(2::real) powi (?e - ?p) \<le> \<bar>x\<bar> * 2 powi (- ?p)" .
    moreover have "(0::real) \<le> 2 powi (emin dt - ?p)" by simp
    ultimately show ?thesis by linarith
  qed
  with ieee_round_error_ulp[of dt x] show ?thesis by linarith
qed

lemma ieee_round_error32: "\<bar>ieee_round dt x - x\<bar> \<le> \<bar>x\<bar> / 2 ^ 24 + 1 / 2 ^ 60"
proof -
  have p: "(2::real) powi (- precision dt) \<le> 1 / 2 ^ 24"
    by (cases dt) (simp_all add: precision_def power_int_minus field_simps)
  have e: "(2::real) powi (emin dt - precision dt) \<le> 1 / 2 ^ 60"
    by (cases dt) (simp_all add: precision_def emin_def power_int_minus field_simps)
  have "\<bar>x\<bar> * 2 powi (- precision dt) \<le> \<bar>x\<bar> * (1 / 2 ^ 24)"
    using p by (intro mult_left_mono) simp_all
  with e ieee_round_error[of dt x] show ?thesis by simp
qed

lemma ieee_round_error64: "\<bar>ieee_round Float64 x - x\<bar> \<le> \<bar>x\<bar> / 2 ^ 50 + 1 / 2 ^ 60"
proof -
  have p: "(2::real) powi (- precision Float64) \<le> 1 / 2 ^ 50"
    by (simp add: precision_def power_int_minus field_simps)
  have e: "(2::real) powi (emin Float64 - precision Float64) \<le> 1 / 2 ^ 60"
    by (simp add: precision_def emin_def power_int_minus field_simps)
  have "\<bar>x\<bar> * 2 powi (- precision Float64) \<le> \<bar>x\<bar> * (1 / 2 ^ 50)"
    using p by (intro mult_left_mono) simp_all
  with e ieee_round_error[of Float64 x] show ?thesis by simp
qed

lemma ieee_round_255: "ieee_round dt 255 = 255"
proof -
  have e: "exponent dt 255 = 7"
    by (rule exponent_eq) (cases dt; simp add: emin_def emax_def)+
  show ?thesis
  proof (cases dt)
    case Float32
    have "(255::real) / 2 powi (- 16) = of_int 16711680" by (simp add: power_int_minus)
    then have "round_half_even (255 / 2 powi (- 16)) = 16711680"
      by (simp only: round_half_even_int)
    then show ?thesis using e Float32
      by (simp add: ieee_round_def precision_def power_int_minus)
  next
    case Float64
    have "(255::real) / 2 powi (- 45) = of_int (255 * 2 ^ 45)" by (simp add: power_int_minus)
    then have "round_half_even (255 / 2 powi (- 45)) = 255 * 2 ^ 45"
      by (simp only: round_half_even_int)
    then show ?thesis using e Float64
      by (simp add: ieee_round_def precision_def power_int_minus)
  qed
qed

subsection \<open>The error of the normalisation\<close>

text \<open>
  The five roundings of one element (the literal 255, the two divisions, the subtraction
  and the cast, with the rounded mean and deviation) together move the result by less
  than \<open>10\<^sup>-\<^sup>6\<close>.
\<close>

lemma normalise_error_steps:
  fixes t \<mu> \<sigma> a m d s r y :: real
  assumes t: "0 \<le> t" "t \<le> 1" and mu: "2 / 5 \<le> \<mu>" "\<mu> \<le> 1 / 2"
    and sg: "11 / 50 \<le> \<sigma>" "\<sigma> \<le> 23 / 100"
    and a: "\<bar>a - t\<bar> \<le> \<bar>t\<bar> / 2 ^ 24 + 1 / 2 ^ 60"
    and m: "\<bar>m - \<mu>\<bar> \<le> \<bar>\<mu>\<bar> / 2 ^ 50 + 1 / 2 ^ 60"
    and d: "\<bar>d - (a - m)\<bar> \<le> \<bar>a - m\<bar> / 2 ^ 50 + 1 / 2 ^ 60"
    and s: "\<bar>s - \<sigma>\<bar> \<le> \<bar>\<sigma>\<bar> / 2 ^ 50 + 1 / 2 ^ 60"
    and r: "\<bar>r - d / s\<bar> \<le> \<bar>d / s\<bar> / 2 ^ 50 + 1 / 2 ^ 60"
    and y: "\<bar>y - r\<bar> \<le> \<bar>r\<bar> / 2 ^ 24 + 1 / 2 ^ 60"
  shows "\<bar>y - (t - \<mu>) / \<sigma>\<bar> \<le> 1 / 1000000"
proof -
  define T where "T = t - \<mu>"
  have Tb: "\<bar>T\<bar> \<le> 3 / 5" using t mu unfolding T_def by linarith
  have a1: "\<bar>a - t\<bar> \<le> 6 / 100000000" using a t by simp
  have m1: "\<bar>m - \<mu>\<bar> \<le> 1 / 1000000000000" using m mu by simp
  have am: "\<bar>(a - m) - T\<bar> \<le> 61 / 1000000000"
    using a1 m1 unfolding T_def by linarith
  have amb: "\<bar>a - m\<bar> \<le> 1" using am Tb by linarith
  have d1: "\<bar>d - (a - m)\<bar> \<le> 1 / 1000000000000" using d amb by simp
  have dT: "\<bar>d - T\<bar> \<le> 62 / 1000000000"
    using d1 am by linarith
  have s1: "\<bar>s - \<sigma>\<bar> \<le> 1 / 1000000000000" using s sg by simp
  have slo: "21 / 100 \<le> s" using s1 sg by linarith
  have spos: "0 < s" using slo by simp
  have gpos: "0 < \<sigma>" using sg by simp
  have split: "d / s - T / \<sigma> = (d - T) / s + T * (\<sigma> - s) / (s * \<sigma>)"
    using spos gpos by (simp add: field_simps)
  have p1: "\<bar>(d - T) / s\<bar> \<le> (62 / 1000000000) / (21 / 100)"
  proof -
    have "\<bar>(d - T) / s\<bar> = \<bar>d - T\<bar> / s" using spos by (simp add: abs_divide)
    also have "\<dots> \<le> (62 / 1000000000) / (21 / 100)"
      using dT slo by (intro frac_le) simp_all
    finally show ?thesis .
  qed
  have p2: "\<bar>T * (\<sigma> - s) / (s * \<sigma>)\<bar> \<le> (3 / 5 * (1 / 1000000000000)) / (21 / 100 * (11 / 50))"
  proof -
    have "\<bar>T * (\<sigma> - s) / (s * \<sigma>)\<bar> = (\<bar>T\<bar> * \<bar>\<sigma> - s\<bar>) / (s * \<sigma>)"
      using spos gpos by (simp add: abs_mult)
    also have "\<dots> \<le> (3 / 5 * (1 / 1000000000000)) / (21 / 100 * (11 / 50))"
    proof (rule frac_le)
      show "(0::real) \<le> 3 / 5 * (1 / 1000000000000)" by simp
      have "\<bar>\<sigma> - s\<bar> \<le> 1 / 1000000000000" using s1 by (simp add: abs_minus_commute)
      with Tb show "\<bar>T\<bar> * \<bar>\<sigma> - s\<bar> \<le> 3 / 5 * (1 / 1000000000000)"
        by (intro mult_mono) simp_all
      show "(0::real) < 21 / 100 * (11 / 50)" by simp
      show "21 / 100 * (11 / 50) \<le> s * \<sigma>"
        using slo sg by (intro mult_mono) simp_all
    qed
    finally show ?thesis .
  qed
  have q: "\<bar>d / s - T / \<sigma>\<bar> \<le> 3 / 10000000"
  proof -
    have "\<bar>d / s - T / \<sigma>\<bar> \<le> \<bar>(d - T) / s\<bar> + \<bar>T * (\<sigma> - s) / (s * \<sigma>)\<bar>"
      unfolding split by (rule abs_triangle_ineq)
    with p1 p2 show ?thesis by simp
  qed
  have Ib: "\<bar>T / \<sigma>\<bar> \<le> 3"
  proof -
    have "\<bar>T / \<sigma>\<bar> = \<bar>T\<bar> / \<sigma>" using gpos by (simp add: abs_divide)
    also have "\<dots> \<le> (3 / 5) / (11 / 50)" using Tb sg by (intro frac_le) simp_all
    also have "\<dots> \<le> (3 :: real)" by simp
    finally show ?thesis .
  qed
  have qb: "\<bar>d / s\<bar> \<le> 4" using q Ib by linarith
  have r1: "\<bar>r - d / s\<bar> \<le> 1 / 100000000000" using r qb by simp
  have rb: "\<bar>r\<bar> \<le> 5" using r1 qb by linarith
  have rI: "\<bar>r - T / \<sigma>\<bar> \<le> 31 / 100000000" using r1 q by linarith
  have rb2: "\<bar>r\<bar> \<le> 31 / 10" using rI Ib by linarith
  have y1: "\<bar>y - r\<bar> \<le> 2 / 10000000" using y rb2 by simp
  have "\<bar>y - T / \<sigma>\<bar> \<le> 1 / 1000000" using y1 rI by linarith
  then show ?thesis by (simp add: T_def)
qed

lemma ieee_normalise_error:
  assumes p: "0 \<le> p" "p \<le> 255" and mu: "2 / 5 \<le> \<mu>" "\<mu> \<le> 1 / 2"
    and sg: "11 / 50 \<le> \<sigma>" "\<sigma> \<le> 23 / 100"
  shows "\<bar>astype ieee_arith Float32
            (true_divide ieee_arith Float64
               (subtract ieee_arith Float64
                  (true_divide ieee_arith dt p (astype ieee_arith dt (python_float ieee_arith 255)))
                  (python_float ieee_arith \<mu>))
               (python_float ieee_arith \<sigma>))
          - (p / 255 - \<mu>) / \<sigma>\<bar> \<le> 1 / 1000000"
proof -
  let ?t = "p / 255"
  let ?a = "ieee_round dt ?t"
  let ?m = "ieee_round Float64 \<mu>"
  let ?d = "ieee_round Float64 (?a - ?m)"
  let ?s = "ieee_round Float64 \<sigma>"
  let ?r = "ieee_round Float64 (?d / ?s)"
  let ?y = "ieee_round Float32 ?r"
  have c: "ieee_round dt (ieee_round Float64 255) = 255" by (simp add: ieee_round_255)
  have eq: "astype ieee_arith Float32
            (true_divide ieee_arith Float64
               (subtract ieee_arith Float64
                  (true_divide ieee_arith dt p (astype ieee_arith dt (python_float ieee_arith 255)))
                  (python_float ieee_arith \<mu>))
               (python_float ieee_arith \<sigma>)) = ?y"
    by (simp add: ieee_arith_def c)
  have t: "0 \<le> ?t" "?t \<le> 1" using p by simp_all
  have "\<bar>?y - (?t - \<mu>) / \<sigma>\<bar> \<le> 1 / 1000000"
    using t mu sg
  proof (rule normalise_error_steps)
    show "\<bar>?a - ?t\<bar> \<le> \<bar>?t\<bar> / 2 ^ 24 + 1 / 2 ^ 60" by (rule ieee_round_error32)
    show "\<bar>?m - \<mu>\<bar> \<le> \<bar>\<mu>\<bar> / 2 ^ 50 + 1 / 2 ^ 60" by (rule ieee_round_error64)
    show "\<bar>?d - (?a - ?m)\<bar> \<le> \<bar>?a - ?m\<bar> / 2 ^ 50 + 1 / 2 ^ 60" by (rule ieee_round_error64)
    show "\<bar>?s - \<sigma>\<bar> \<le> \<bar>\<sigma>\<bar> / 2 ^ 50 + 1 / 2 ^ 60" by (rule ieee_round_error64)
    show "\<bar>?r - ?d / ?s\<bar> \<le> \<bar>?d / ?s\<bar> / 2 ^ 50 + 1 / 2 ^ 60" by (rule ieee_round_error64)
    show "\<bar>?y - ?r\<bar> \<le> \<bar>?r\<bar> / 2 ^ 24 + 1 / 2 ^ 60" by (rule ieee_round_error32)
  qed
  with eq show ?thesis by simp
qed

subsection \<open>The floats of the channel example\<close>

text \<open>
  The roundings of the example, step by step: the literals, the difference, the quotient
  and the cast, for each of the three channels.
\<close>

lemma ieee_round_at:
  assumes "emin dt \<le> E" and "E \<le> emax dt" and "2 powi E \<le> \<bar>x\<bar>" and "\<bar>x\<bar> < 2 powi (E + 1)"
  shows "ieee_round dt x =
           of_int (round_half_even (x / 2 powi (E - precision dt + 1))) *
             2 powi (E - precision dt + 1)"
  using exponent_eq[OF assms] by (simp add: ieee_round_def Let_def)

lemma ieee_round_0: "ieee_round dt 0 = 0"
  by (simp add: ieee_round_def round_half_even_def)

lemma ieee_round_1: "ieee_round dt 1 = 1"
proof (cases dt)
  case Float32
  show ?thesis unfolding Float32
    by (subst ieee_round_at[where E = 0])
      (simp_all add: emin_def emax_def precision_def power_int_minus round_half_even_def)
next
  case Float64
  show ?thesis unfolding Float64
    by (subst ieee_round_at[where E = 0])
      (simp_all add: emin_def emax_def precision_def power_int_minus round_half_even_def)
qed

lemma mean0: "ieee_round Float64 0.485 = 4368491638549381 / 9007199254740992"
  by (subst ieee_round_at[where E = "- 2"])
    (simp_all add: emin_def emax_def precision_def power_int_minus round_half_even_def)

lemma std0: "ieee_round Float64 0.229 = 8250594517342749 / 36028797018963968"
  by (subst ieee_round_at[where E = "- 3"])
    (simp_all add: emin_def emax_def precision_def power_int_minus round_half_even_def)

lemma diff0:
  "ieee_round Float64 (1 - 4368491638549381 / 9007199254740992) =
     4638707616191611 / 9007199254740992"
  by (subst ieee_round_at[where E = "- 1"])
    (simp_all add: emin_def emax_def precision_def power_int_minus round_half_even_def)

lemma quot0:
  "ieee_round Float64
     (4638707616191611 / 9007199254740992 / (8250594517342749 / 36028797018963968)) =
     5064091284051977 / 2251799813685248"
  by (subst ieee_round_at[where E = 1])
    (simp_all add: emin_def emax_def precision_def power_int_minus round_half_even_def)

lemma cast0: "ieee_round Float32 (5064091284051977 / 2251799813685248) = 9432605 / 4194304"
  by (subst ieee_round_at[where E = 1])
    (simp_all add: emin_def emax_def precision_def power_int_minus round_half_even_def)

lemma mean1: "ieee_round Float64 0.456 = 8214565720323785 / 18014398509481984"
  by (subst ieee_round_at[where E = "- 2"])
    (simp_all add: emin_def emax_def precision_def power_int_minus round_half_even_def)

lemma std1: "ieee_round Float64 0.224 = 8070450532247929 / 36028797018963968"
  by (subst ieee_round_at[where E = "- 3"])
    (simp_all add: emin_def emax_def precision_def power_int_minus round_half_even_def)

lemma diff1:
  "ieee_round Float64 (0 - 8214565720323785 / 18014398509481984) =
     - (8214565720323785 / 18014398509481984)"
  by (subst ieee_round_at[where E = "- 2"])
    (simp_all add: emin_def emax_def precision_def power_int_minus round_half_even_def)

lemma quot1:
  "ieee_round Float64
     (- (8214565720323785 / 18014398509481984) / (8070450532247929 / 36028797018963968)) =
     - (2292010524643913 / 1125899906842624)"
  by (subst ieee_round_at[where E = 1])
    (simp_all add: emin_def emax_def precision_def power_int_minus round_half_even_def)

lemma cast1:
  "ieee_round Float32 (- (2292010524643913 / 1125899906842624)) = - (8538405 / 4194304)"
  by (subst ieee_round_at[where E = 1])
    (simp_all add: emin_def emax_def precision_def power_int_minus round_half_even_def)

lemma mean2: "ieee_round Float64 0.406 = 3656922897424843 / 9007199254740992"
  by (subst ieee_round_at[where E = "- 2"])
    (simp_all add: emin_def emax_def precision_def power_int_minus round_half_even_def)

lemma std2: "ieee_round Float64 0.225 = 8106479329266893 / 36028797018963968"
  by (subst ieee_round_at[where E = "- 3"])
    (simp_all add: emin_def emax_def precision_def power_int_minus round_half_even_def)

lemma diff2:
  "ieee_round Float64 (0 - 3656922897424843 / 9007199254740992) =
     - (3656922897424843 / 9007199254740992)"
  by (subst ieee_round_at[where E = "- 2"])
    (simp_all add: emin_def emax_def precision_def power_int_minus round_half_even_def)

lemma quot2:
  "ieee_round Float64
     (- (3656922897424843 / 9007199254740992) / (8106479329266893 / 36028797018963968)) =
     - (4063247663805381 / 2251799813685248)"
  by (subst ieee_round_at[where E = 0])
    (simp_all add: emin_def emax_def precision_def power_int_minus round_half_even_def)

lemma cast2:
  "ieee_round Float32 (- (4063247663805381 / 2251799813685248)) = - (15136777 / 8388608)"
  by (subst ieee_round_at[where E = 0])
    (simp_all add: emin_def emax_def precision_def power_int_minus round_half_even_def)

lemma ieee_scale_255: "ieee_round dt (255 / ieee_round dt (ieee_round Float64 255)) = 1"
  by (simp add: ieee_round_255 ieee_round_1)

lemma ieee_scale_0: "ieee_round dt (0 / ieee_round dt (ieee_round Float64 255)) = 0"
  by (simp add: ieee_round_0)

lemma ieee_plane0:
  "astype ieee_arith Float32
     (true_divide ieee_arith Float64
        (subtract ieee_arith Float64
           (true_divide ieee_arith dt 255 (astype ieee_arith dt (python_float ieee_arith 255)))
           (python_float ieee_arith 0.485))
        (python_float ieee_arith 0.229)) = 9432605 / 4194304"
proof -
  have "ieee_round Float32
     (ieee_round Float64
        (ieee_round Float64
           (ieee_round dt (255 / ieee_round dt (ieee_round Float64 255)) - ieee_round Float64 0.485) /
         ieee_round Float64 0.229)) = 9432605 / 4194304"
    by (simp only: ieee_scale_255 mean0 diff0 std0 quot0 cast0)
  then show ?thesis by (simp add: ieee_arith_def)
qed

lemma ieee_plane1:
  "astype ieee_arith Float32
     (true_divide ieee_arith Float64
        (subtract ieee_arith Float64
           (true_divide ieee_arith dt 0 (astype ieee_arith dt (python_float ieee_arith 255)))
           (python_float ieee_arith 0.456))
        (python_float ieee_arith 0.224)) = - (8538405 / 4194304)"
proof -
  have "ieee_round Float32
     (ieee_round Float64
        (ieee_round Float64
           (ieee_round dt (0 / ieee_round dt (ieee_round Float64 255)) - ieee_round Float64 0.456) /
         ieee_round Float64 0.224)) = - (8538405 / 4194304)"
    by (simp only: ieee_scale_0 mean1 diff1 std1 quot1 cast1)
  then show ?thesis by (simp add: ieee_arith_def)
qed

lemma ieee_plane2:
  "astype ieee_arith Float32
     (true_divide ieee_arith Float64
        (subtract ieee_arith Float64
           (true_divide ieee_arith dt 0 (astype ieee_arith dt (python_float ieee_arith 255)))
           (python_float ieee_arith 0.406))
        (python_float ieee_arith 0.225)) = - (15136777 / 8388608)"
proof -
  have "ieee_round Float32
     (ieee_round Float64
        (ieee_round Float64
           (ieee_round dt (0 / ieee_round dt (ieee_round Float64 255)) - ieee_round Float64 0.406) /
         ieee_round Float64 0.225)) = - (15136777 / 8388608)"
    by (simp only: ieee_scale_0 mean2 diff2 std2 quot2 cast2)
  then show ?thesis by (simp add: ieee_arith_def)
qed

section \<open>Claims about the preprocessing transform\<close>

text \<open>
  Claim C3. For every input array of shape \<open>(1, 224, 224, 3)\<close> the transform returns an
  array of shape \<open>(1, 3, 224, 224)\<close> and element type \<^verbatim>\<open>float32\<close>, whose element at
  channel \<open>c\<close>, row \<open>i\<close>, column \<open>j\<close> is \<open>((pixel / 255) - mean[c]) / std[c]\<close>, cast to
  \<^verbatim>\<open>float32\<close>, for the pixel value at row \<open>i\<close>, column \<open>j\<close>, channel \<open>c\<close> of the input,
  with \<open>mean = [0.485, 0.456, 0.406]\<close> and \<open>std = [0.229, 0.224, 0.225]\<close>; this holds
  with the operations of any arithmetic. In IEEE arithmetic, where every operation rounds,
  the element differs from the real number \<open>((pixel / 255) - mean[c]) / std[c]\<close> by at
  most \<open>10\<^sup>-\<^sup>6\<close> for every pixel value between 0 and 255. In particular, for an input whose
  channel 0 is 255 everywhere and whose channels 1 and 2 are 0 everywhere, channel 0 of
  the result is \<open>(1 - 0.485) / 0.229\<close> everywhere, channel 1 is \<open>(0 - 0.456) / 0.224\<close> and
  channel 2 is \<open>(0 - 0.406) / 0.225\<close>, each within \<open>10\<^sup>-\<^sup>6\<close>.
\<close>

theorem preprocess_normalises:
  assumes "shape X = [1, 224, 224, 3]" and "shape P = [1, 224, 224, 3]"
  shows "(\<exists>h' Y. preprocess_pytorch_style ar h X = (h', Inr Y) \<and>
            dtype Y = Float32 \<and> shape Y = [1, 3, 224, 224] \<and>
            (\<forall>c i j. c < 3 \<and> i < 224 \<and> j < 224 \<longrightarrow>
               getitem h' Y [0, c, i, j] =
                 astype ar Float32
                   (true_divide ar Float64
                      (subtract ar Float64
                         (true_divide ar (dtype X) (getitem h X [0, i, j, c])
                            (astype ar (dtype X) (python_float ar 255)))
                         (python_float ar ([0.485, 0.456, 0.406] ! c)))
                      (python_float ar ([0.229, 0.224, 0.225] ! c))))) \<and>
         (\<exists>h' Y. preprocess_pytorch_style ieee_arith hp P = (h', Inr Y) \<and>
            dtype Y = Float32 \<and> shape Y = [1, 3, 224, 224] \<and>
            (\<forall>c i j. c < 3 \<and> i < 224 \<and> j < 224 \<and>
                 0 \<le> getitem hp P [0, i, j, c] \<and> getitem hp P [0, i, j, c] \<le> 255 \<longrightarrow>
               \<bar>getitem h' Y [0, c, i, j] -
                 (getitem hp P [0, i, j, c] / 255 - [0.485, 0.456, 0.406] ! c) /
                   [0.229, 0.224, 0.225] ! c\<bar> \<le> 1 / 1000000) \<and>
            (\<forall>i j. i < 224 \<and> j < 224 \<and> getitem hp P [0, i, j, 0] = 255 \<and>
                 getitem hp P [0, i, j, 1] = 0 \<and> getitem hp P [0, i, j, 2] = 0 \<longrightarrow>
               \<bar>getitem h' Y [0, 0, i, j] - (1 - 0.485) / 0.229\<bar> \<le> 1 / 1000000 \<and>
               \<bar>getitem h' Y [0, 1, i, j] - (0 - 0.456) / 0.224\<bar> \<le> 1 / 1000000 \<and>
               \<bar>getitem h' Y [0, 2, i, j] - (0 - 0.406) / 0.225\<bar> \<le> 1 / 1000000))"
proof
  from preprocess_elements[OF assms(1), of ar h]
  obtain h' Y where run: "preprocess_pytorch_style ar h X = (h', Inr Y)"
    and dt: "dtype Y = Float32" and shp: "shape Y = [1, 3, 224, 224]"
    and el: "\<forall>b c i j. b < 1 \<and> c < 3 \<and> i < 224 \<and> j < 224 \<longrightarrow>
              getitem h' Y [b, c, i, j] =
                astype ar Float32
                  (true_divide ar Float64
                     (subtract ar Float64
                        (true_divide ar (dtype X) (getitem h X [b, i, j, c])
                           (astype ar (dtype X) (python_float ar 255)))
                        (python_float ar ([0.485, 0.456, 0.406] ! c)))
                     (python_float ar ([0.229, 0.224, 0.225] ! c)))"
    by blast
  from el have "\<forall>c i j. c < 3 \<and> i < 224 \<and> j < 224 \<longrightarrow>
               getitem h' Y [0, c, i, j] =
                 astype ar Float32
                   (true_divide ar Float64
                      (subtract ar Float64
                         (true_divide ar (dtype X) (getitem h X [0, i, j, c])
                            (astype ar (dtype X) (python_float ar 255)))
                         (python_float ar ([0.485, 0.456, 0.406] ! c)))
                      (python_float ar ([0.229, 0.224, 0.225] ! c)))"
    by simp
  with run dt shp show "\<exists>h' Y. preprocess_pytorch_style ar h X = (h', Inr Y) \<and>
            dtype Y = Float32 \<and> shape Y = [1, 3, 224, 224] \<and>
            (\<forall>c i j. c < 3 \<and> i < 224 \<and> j < 224 \<longrightarrow>
               getitem h' Y [0, c, i, j] =
                 astype ar Float32
                   (true_divide ar Float64
                      (subtract ar Float64
                         (true_divide ar (dtype X) (getitem h X [0, i, j, c])
                            (astype ar (dtype X) (python_float ar 255)))
                         (python_float ar ([0.485, 0.456, 0.406] ! c)))
                      (python_float ar ([0.229, 0.224, 0.225] ! c))))"
    by blast
next
  let ?mean = "[0.485, 0.456, 0.406 :: real]"
  let ?std = "[0.229, 0.224, 0.225 :: real]"
  from preprocess_elements[OF assms(2), of ieee_arith hp]
  obtain h' Y where run: "preprocess_pytorch_style ieee_arith hp P = (h', Inr Y)"
    and dt: "dtype Y = Float32" and shp: "shape Y = [1, 3, 224, 224]"
    and el: "\<forall>b c i j. b < 1 \<and> c < 3 \<and> i < 224 \<and> j < 224 \<longrightarrow>
              getitem h' Y [b, c, i, j] =
                astype ieee_arith Float32
                  (true_divide ieee_arith Float64
                     (subtract ieee_arith Float64
                        (true_divide ieee_arith (dtype P) (getitem hp P [b, i, j, c])
                           (astype ieee_arith (dtype P) (python_float ieee_arith 255)))
                        (python_float ieee_arith (?mean ! c)))
                     (python_float ieee_arith (?std ! c)))"
    by blast
  have bound: "\<bar>getitem h' Y [0, c, i, j] - (getitem hp P [0, i, j, c] / 255 - ?mean ! c) / ?std ! c\<bar>
        \<le> 1 / 1000000"
    if r: "c < 3" "i < 224" "j < 224"
      and p: "0 \<le> getitem hp P [0, i, j, c]" "getitem hp P [0, i, j, c] \<le> 255"
    for c i j
  proof -
    from r have "c = 0 \<or> c = 1 \<or> c = 2" by auto
    then have mu: "2 / 5 \<le> ?mean ! c" "?mean ! c \<le> 1 / 2"
      and sg: "11 / 50 \<le> ?std ! c" "?std ! c \<le> 23 / 100"
      by auto
    from el r have "getitem h' Y [0, c, i, j] =
                astype ieee_arith Float32
                  (true_divide ieee_arith Float64
                     (subtract ieee_arith Float64
                        (true_divide ieee_arith (dtype P) (getitem hp P [0, i, j, c])
                           (astype ieee_arith (dtype P) (python_float ieee_arith 255)))
                        (python_float ieee_arith (?mean ! c)))
                     (python_float ieee_arith (?std ! c)))"
      by simp
    with ieee_normalise_error[OF p mu sg, of "dtype P"] show ?thesis by simp
  qed
  have general: "\<forall>c i j. c < 3 \<and> i < 224 \<and> j < 224 \<and>
        0 \<le> getitem hp P [0, i, j, c] \<and> getitem hp P [0, i, j, c] \<le> 255 \<longrightarrow>
        \<bar>getitem h' Y [0, c, i, j] -
          (getitem hp P [0, i, j, c] / 255 - ?mean ! c) / ?std ! c\<bar> \<le> 1 / 1000000"
    using bound by blast
  have planes: "\<bar>getitem h' Y [0, 0, i, j] - (1 - 0.485) / 0.229\<bar> \<le> 1 / 1000000 \<and>
                \<bar>getitem h' Y [0, 1, i, j] - (0 - 0.456) / 0.224\<bar> \<le> 1 / 1000000 \<and>
                \<bar>getitem h' Y [0, 2, i, j] - (0 - 0.406) / 0.225\<bar> \<le> 1 / 1000000"
    if r: "i < 224" "j < 224" and p0: "getitem hp P [0, i, j, 0] = 255"
      and p1: "getitem hp P [0, i, j, 1] = 0" and p2: "getitem hp P [0, i, j, 2] = 0"
    for i j
  proof -
    have "\<bar>getitem h' Y [0, 0, i, j] - (getitem hp P [0, i, j, 0] / 255 - ?mean ! 0) / ?std ! 0\<bar>
        \<le> 1 / 1000000"
      using r p0 by (intro bound) simp_all
    then have c0: "\<bar>getitem h' Y [0, 0, i, j] - (1 - 0.485) / 0.229\<bar> \<le> 1 / 1000000"
      unfolding p0 by simp
    have "\<bar>getitem h' Y [0, 1, i, j] - (getitem hp P [0, i, j, 1] / 255 - ?mean ! 1) / ?std ! 1\<bar>
        \<le> 1 / 1000000"
      using r p1 by (intro bound) simp_all
    then have c1: "\<bar>getitem h' Y [0, 1, i, j] - (0 - 0.456) / 0.224\<bar> \<le> 1 / 1000000"
      unfolding p1 by simp
    have "\<bar>getitem h' Y [0, 2, i, j] - (getitem hp P [0, i, j, 2] / 255 - ?mean ! 2) / ?std ! 2\<bar>
        \<le> 1 / 1000000"
      using r p2 by (intro bound) simp_all
    then have c2: "\<bar>getitem h' Y [0, 2, i, j] - (0 - 0.406) / 0.225\<bar> \<le> 1 / 1000000"
      unfolding p2 by simp
    from c0 c1 c2 show ?thesis by blast
  qed
  have particular: "\<forall>i j. i < 224 \<and> j < 224 \<and> getitem hp P [0, i, j, 0] = 255 \<and>
        getitem hp P [0, i, j, 1] = 0 \<and> getitem hp P [0, i, j, 2] = 0 \<longrightarrow>
        \<bar>getitem h' Y [0, 0, i, j] - (1 - 0.485) / 0.229\<bar> \<le> 1 / 1000000 \<and>
        \<bar>getitem h' Y [0, 1, i, j] - (0 - 0.456) / 0.224\<bar> \<le> 1 / 1000000 \<and>
        \<bar>getitem h' Y [0, 2, i, j] - (0 - 0.406) / 0.225\<bar> \<le> 1 / 1000000"
    using planes by blast
  from run dt shp general particular
  show "\<exists>h' Y. preprocess_pytorch_style ieee_arith hp P = (h', Inr Y) \<and>
            dtype Y = Float32 \<and> shape Y = [1, 3, 224, 224] \<and>
            (\<forall>c i j. c < 3 \<and> i < 224 \<and> j < 224 \<and>
                 0 \<le> getitem hp P [0, i, j, c] \<and> getitem hp P [0, i, j, c] \<le> 255 \<longrightarrow>
               \<bar>getitem h' Y [0, c, i, j] -
                 (getitem hp P [0, i, j, c] / 255 - ?mean ! c) / ?std ! c\<bar> \<le> 1 / 1000000) \<and>
            (\<forall>i j. i < 224 \<and> j < 224 \<and> getitem hp P [0, i, j, 0] = 255 \<and>
                 getitem hp P [0, i, j, 1] = 0 \<and> getitem hp P [0, i, j, 2] = 0 \<longrightarrow>
               \<bar>getitem h' Y [0, 0, i, j] - (1 - 0.485) / 0.229\<bar> \<le> 1 / 1000000 \<and>
               \<bar>getitem h' Y [0, 1, i, j] - (0 - 0.456) / 0.224\<bar> \<le> 1 / 1000000 \<and>
               \<bar>getitem h' Y [0, 2, i, j] - (0 - 0.406) / 0.225\<bar> \<le> 1 / 1000000)"
    by blast
qed

theorem preprocess_normalises_witness:
  "\<exists>h' Y. preprocess_pytorch_style ieee_arith example_planes_heap example_planes = (h', Inr Y) \<and>
      dtype Y = Float32 \<and> shape Y = [1, 3, 224, 224] \<and>
      (\<forall>i j. i < 224 \<and> j < 224 \<longrightarrow>
         getitem h' Y [0, 0, i, j] = 9432605 / 4194304 \<and>
         getitem h' Y [0, 1, i, j] = - (8538405 / 4194304) \<and>
         getitem h' Y [0, 2, i, j] = - (15136777 / 8388608) \<and>
         \<bar>getitem h' Y [0, 0, i, j] - (1 - 0.485) / 0.229\<bar> \<le> 1 / 1000000 \<and>
         \<bar>getitem h' Y [0, 1, i, j] - (0 - 0.456) / 0.224\<bar> \<le> 1 / 1000000 \<and>
         \<bar>getitem h' Y [0, 2, i, j] - (0 - 0.406) / 0.225\<bar> \<le> 1 / 1000000)"
proof -
  have s: "shape example_planes = [1, 224, 224, 3]"
    by (simp add: example_planes_def)
  have p: "getitem example_planes_heap example_planes [0, i, j, 0] = 255 \<and>
           getitem example_planes_heap example_planes [0, i, j, 1] = 0 \<and>
           getitem example_planes_heap example_planes [0, i, j, 2] = 0" for i j
    by (simp add: getitem_def offset_def example_planes_def example_planes_heap_def)
  note main = preprocess_normalises[OF s s, of ieee_arith example_planes_heap example_planes_heap]
  from main obtain h' Y
    where run: "preprocess_pytorch_style ieee_arith example_planes_heap example_planes = (h', Inr Y)"
      and dt: "dtype Y = Float32" and shp: "shape Y = [1, 3, 224, 224]"
      and el: "\<forall>c i j. c < 3 \<and> i < 224 \<and> j < 224 \<longrightarrow>
               getitem h' Y [0, c, i, j] =
                 astype ieee_arith Float32
                   (true_divide ieee_arith Float64
                      (subtract ieee_arith Float64
                         (true_divide ieee_arith (dtype example_planes)
                            (getitem example_planes_heap example_planes [0, i, j, c])
                            (astype ieee_arith (dtype example_planes) (python_float ieee_arith 255)))
                         (python_float ieee_arith ([0.485, 0.456, 0.406] ! c)))
                      (python_float ieee_arith ([0.229, 0.224, 0.225] ! c)))"
    by blast
  from main obtain h2 Y2
    where run2: "preprocess_pytorch_style ieee_arith example_planes_heap example_planes = (h2, Inr Y2)"
      and near: "\<forall>i j. i < 224 \<and> j < 224 \<and>
                 getitem example_planes_heap example_planes [0, i, j, 0] = 255 \<and>
                 getitem example_planes_heap example_planes [0, i, j, 1] = 0 \<and>
                 getitem example_planes_heap example_planes [0, i, j, 2] = 0 \<longrightarrow>
               \<bar>getitem h2 Y2 [0, 0, i, j] - (1 - 0.485) / 0.229\<bar> \<le> 1 / 1000000 \<and>
               \<bar>getitem h2 Y2 [0, 1, i, j] - (0 - 0.456) / 0.224\<bar> \<le> 1 / 1000000 \<and>
               \<bar>getitem h2 Y2 [0, 2, i, j] - (0 - 0.406) / 0.225\<bar> \<le> 1 / 1000000"
    by blast
  from run run2 have same: "h2 = h'" "Y2 = Y" by simp_all
  have vals: "getitem h' Y [0, 0, i, j] = 9432605 / 4194304 \<and>
         getitem h' Y [0, 1, i, j] = - (8538405 / 4194304) \<and>
         getitem h' Y [0, 2, i, j] = - (15136777 / 8388608) \<and>
         \<bar>getitem h' Y [0, 0, i, j] - (1 - 0.485) / 0.229\<bar> \<le> 1 / 1000000 \<and>
         \<bar>getitem h' Y [0, 1, i, j] - (0 - 0.456) / 0.224\<bar> \<le> 1 / 1000000 \<and>
         \<bar>getitem h' Y [0, 2, i, j] - (0 - 0.406) / 0.225\<bar> \<le> 1 / 1000000"
    if r: "i < 224 \<and> j < 224" for i j
  proof -
    from el r have "getitem h' Y [0, 0, i, j] =
                 astype ieee_arith Float32
                   (true_divide ieee_arith Float64
                      (subtract ieee_arith Float64
                         (true_divide ieee_arith (dtype example_planes)
                            (getitem example_planes_heap example_planes [0, i, j, 0])
                            (astype ieee_arith (dtype example_planes) (python_float ieee_arith 255)))
                         (python_float ieee_arith ([0.485, 0.456, 0.406] ! 0)))
                      (python_float ieee_arith ([0.229, 0.224, 0.225] ! 0)))"
      by simp
    then have "getitem h' Y [0, 0, i, j] =
                 astype ieee_arith Float32
                   (true_divide ieee_arith Float64
                      (subtract ieee_arith Float64
                         (true_divide ieee_arith (dtype example_planes) 255
                            (astype ieee_arith (dtype example_planes) (python_float ieee_arith 255)))
                         (python_float ieee_arith 0.485))
                      (python_float ieee_arith 0.229))"
      using p[of i j] by simp
    then have v0: "getitem h' Y [0, 0, i, j] = 9432605 / 4194304"
      by (simp only: ieee_plane0)
    from el r have "getitem h' Y [0, 1, i, j] =
                 astype ieee_arith Float32
                   (true_divide ieee_arith Float64
                      (subtract ieee_arith Float64
                         (true_divide ieee_arith (dtype example_planes)
                            (getitem example_planes_heap example_planes [0, i, j, 1])
                            (astype ieee_arith (dtype example_planes) (python_float ieee_arith 255)))
                         (python_float ieee_arith ([0.485, 0.456, 0.406] ! 1)))
                      (python_float ieee_arith ([0.229, 0.224, 0.225] ! 1)))"
      by simp
    then have "getitem h' Y [0, 1, i, j] =
                 astype ieee_arith Float32
                   (true_divide ieee_arith Float64
                      (subtract ieee_arith Float64
                         (true_divide ieee_arith (dtype example_planes) 0
                            (astype ieee_arith (dtype example_planes) (python_float ieee_arith 255)))
                         (python_float ieee_arith 0.456))
                      (python_float ieee_arith 0.224))"
      using p[of i j] by simp
    then have v1: "getitem h' Y [0, 1, i, j] = - (8538405 / 4194304)"
      by (simp only: ieee_plane1)
    from el r have "getitem h' Y [0, 2, i, j] =
                 astype ieee_arith Float32
                   (true_divide ieee_arith Float64
                      (subtract ieee_arith Float64
                         (true_divide ieee_arith (dtype example_planes)
                            (getitem example_planes_heap example_planes [0, i, j, 2])
                            (astype ieee_arith (dtype example_planes) (python_float ieee_arith 255)))
                         (python_float ieee_arith ([0.485, 0.456, 0.406] ! 2)))
                      (python_float ieee_arith ([0.229, 0.224, 0.225] ! 2)))"
      by simp
    then have "getitem h' Y [0, 2, i, j] =
                 astype ieee_arith Float32
                   (true_divide ieee_arith Float64
                      (subtract ieee_arith Float64
                         (true_divide ieee_arith (dtype example_planes) 0
                            (astype ieee_arith (dtype example_planes) (python_float ieee_arith 255)))
                         (python_float ieee_arith 0.406))
                      (python_float ieee_arith 0.225))"
      using p[of i j] by simp
    then have v2: "getitem h' Y [0, 2, i, j] = - (15136777 / 8388608)"
      by (simp only: ieee_plane2)
    from near r p[of i j] same
    have n: "\<bar>getitem h' Y [0, 0, i, j] - (1 - 0.485) / 0.229\<bar> \<le> 1 / 1000000 \<and>
               \<bar>getitem h' Y [0, 1, i, j] - (0 - 0.456) / 0.224\<bar> \<le> 1 / 1000000 \<and>
               \<bar>getitem h' Y [0, 2, i, j] - (0 - 0.406) / 0.225\<bar> \<le> 1 / 1000000"
      by blast
    from v0 v1 v2 n show ?thesis by blast
  qed
  from run dt shp vals show ?thesis by blast
qed

text \<open>
  Claim C10. The transform never mutates its input array: after the call, every buffer
  that existed before the call holds the values it held, and so reading the input array
  gives the elements it had.
\<close>

theorem preprocess_keeps_input:
  assumes "data X < length h"
  shows "take (length h) (fst (preprocess_pytorch_style ar h X)) = h \<and>
         tolist (fst (preprocess_pytorch_style ar h X)) X = tolist h X"
proof
  show "take (length h) (fst (preprocess_pytorch_style ar h X)) = h"
    by (rule preprocess_heap_prefix)
next
  have "fst (preprocess_pytorch_style ar h X) ! data X = h ! data X"
    using assms by (rule preprocess_heap_nth)
  then show "tolist (fst (preprocess_pytorch_style ar h X)) X = tolist h X"
    by (simp add: tolist_def getitem_def)
qed

theorem preprocess_keeps_input_witness:
  "data example_image < length example_heap \<and>
   take (length example_heap)
     (fst (preprocess_pytorch_style ieee_arith example_heap example_image)) = example_heap \<and>
   tolist (fst (preprocess_pytorch_style ieee_arith example_heap example_image)) example_image =
     [255, 0, 0, 254, 1, 0, 253, 2, 0, 252, 3, 0]"
proof -
  have h: "data example_image < length example_heap"
    by (simp add: example_image_def example_heap_def)
  have t: "tolist example_heap example_image = [255, 0, 0, 254, 1, 0, 253, 2, 0, 252, 3, 0]"
    by code_simp
  from preprocess_keeps_input[OF h, of ieee_arith] h t show ?thesis by simp
qed



end
